theory Spec2Isabelle
  imports Complex_Main
begin

section \<open>API Gateway: the rate limiting middleware\<close>

text \<open>
  The gateway keeps one object \<open>rateLimit\<close> for the whole process, keyed by the client
  address (\<open>req.ip || req.connection.remoteAddress\<close>), with a bucket
  \<open>{ count, resetTime }\<close> per key. The object is a map from addresses to buckets;
  \<open>Date.now()\<close> is an integer number of milliseconds and is passed in as \<open>now\<close>.
\<close>

record bucket =
  count :: int
  resetTime :: int

type_synonym rate_limit = "string \<rightharpoonup> bucket"

definition RATE_LIMIT_WINDOW :: int where
  "RATE_LIMIT_WINDOW = 60000"

definition RATE_LIMIT_MAX_REQUESTS :: int where
  "RATE_LIMIT_MAX_REQUESTS = 100"

text \<open>
  \<open>Math.ceil(ms / 1000)\<close> on an integer number of milliseconds: the least integer not
  below the quotient (integer division in HOL rounds down, also for negative numbers).
\<close>

definition ceil_seconds :: "int \<Rightarrow> int" where
  "ceil_seconds ms = - ((- ms) div 1000)"

text \<open>
  What the middleware does with the request: \<open>next()\<close>, or the response
  \<open>429 { error: 'Too many requests', retryAfter }\<close>.
\<close>

datatype decision = Next | Too_many_requests int

text \<open>
  The bucket of the client after the request has been counted: a new window when the
  client has no bucket or when \<open>now > resetTime\<close>, one more request in the current
  window otherwise.
\<close>

definition touch_bucket :: "int \<Rightarrow> bucket option \<Rightarrow> bucket" where
  "touch_bucket now entry =
     (case entry of
        None \<Rightarrow> \<lparr>count = 1, resetTime = now + RATE_LIMIT_WINDOW\<rparr>
      | Some b \<Rightarrow>
          if now > resetTime b then \<lparr>count = 1, resetTime = now + RATE_LIMIT_WINDOW\<rparr>
          else b\<lparr>count := count b + 1\<rparr>)"

definition rate_limit_mw :: "int \<Rightarrow> string \<Rightarrow> rate_limit \<Rightarrow> rate_limit \<times> decision" where
  "rate_limit_mw now clientIP rateLimit =
     (let b = touch_bucket now (rateLimit clientIP);
          rateLimit' = rateLimit(clientIP \<mapsto> b)
      in if count b > RATE_LIMIT_MAX_REQUESTS
         then (rateLimit', Too_many_requests (ceil_seconds (resetTime b - now)))
         else (rateLimit', Next))"

text \<open>
  Successive requests of any clients, each with its instant and its client address: the
  middleware runs once per request on the map left by the previous one.
\<close>

fun serve :: "(int \<times> string) list \<Rightarrow> rate_limit \<Rightarrow> rate_limit \<times> decision list" where
  "serve [] rateLimit = (rateLimit, [])"
| "serve ((now, clientIP) # reqs) rateLimit =
     (case rate_limit_mw now clientIP rateLimit of
        (rateLimit', d) \<Rightarrow>
          (case serve reqs rateLimit' of
             (rateLimit'', ds) \<Rightarrow> (rateLimit'', d # ds)))"

text \<open>
  The instants of the requests of one client among the requests, and the answers given
  to that client among the answers.
\<close>

definition instants_of :: "string \<Rightarrow> (int \<times> string) list \<Rightarrow> int list" where
  "instants_of k reqs = map fst (filter (\<lambda>r. snd r = k) reqs)"

definition answers_to :: "string \<Rightarrow> (int \<times> string) list \<Rightarrow> decision list \<Rightarrow> decision list" where
  "answers_to k reqs ds = map snd (filter (\<lambda>rd. snd (fst rd) = k) (zip reqs ds))"

section \<open>API Gateway: authentication, routes and dispatch\<close>

text \<open>
  A request as the gateway reads it: \<open>req.method\<close>, \<open>req.path\<close>, the client address,
  the \<open>Authorization\<close> header (absent: \<open>None\<close>) and the JSON body, kept as text.
\<close>

record request =
  req_method :: string
  req_path :: string
  req_ip :: string
  req_authorization :: "string option"
  req_body :: string

text \<open>The three backends of \<open>SERVICES\<close>: \<open>user\<close>, \<open>product\<close> and \<open>order\<close>.\<close>

datatype service = User_service | Product_service | Order_service

text \<open>
  What \<open>axios\<close> gets back from a backend: a response with a status and data (a status
  outside 2xx arrives as \<open>error.response\<close>), or no response at all.
\<close>

datatype upstream = Reply nat string | No_response

type_synonym backend = "service \<Rightarrow> string \<Rightarrow> string \<Rightarrow> string option \<Rightarrow> string \<Rightarrow> upstream"

text \<open>
  The bodies the gateway sends. The health and metrics documents and the path and method
  echoed by the 404 handler are not spelled out.
\<close>

datatype gw_body =
    Health_body
  | Metrics_body
  | Relayed string
  | Error_body string
  | Service_unavailable service
  | Too_many_body int
  | Route_not_found

datatype gw_response = Gw_response nat gw_body

text \<open>
  The state of the gateway process: the \<open>rateLimit\<close> object, and a log of the requests
  sent to the backends (service, method, path), so that forwarding is observable.
\<close>

record gateway =
  rateLimit :: rate_limit
  forwarded :: "(service \<times> string \<times> string) list"

subsection \<open>\<open>authenticateToken\<close>\<close>

text \<open>The payload signed by the user service: \<open>{ userId, email }\<close>.\<close>

record claims =
  jwt_userId :: int
  jwt_email :: string

text \<open>\<open>s.split(c)\<close>: the fields of \<open>s\<close> between the occurrences of \<open>c\<close>.\<close>

fun split_on :: "char \<Rightarrow> string \<Rightarrow> string list" where
  "split_on c [] = [[]]"
| "split_on c (x # xs) =
     (if x = c then [] # split_on c xs
      else (case split_on c xs of
              [] \<Rightarrow> [[x]]
            | w # ws \<Rightarrow> (x # w) # ws))"

text \<open>
  \<open>authHeader && authHeader.split(' ')[1]\<close>, followed by the test \<open>!token\<close>: the token is
  the second field of the header; an absent header, a header without a second field and an
  empty second field all count as no token.
\<close>

definition bearer_token :: "string option \<Rightarrow> string option" where
  "bearer_token authHeader =
     (case authHeader of
        None \<Rightarrow> None
      | Some h \<Rightarrow>
          (case split_on CHR '' '' h of
             _ # token # _ \<Rightarrow> if token = [] then None else Some token
           | _ \<Rightarrow> None))"

text \<open>
  \<open>jwt.verify\<close> is a parameter: it returns the payload of a token it accepts. The result
  of \<open>authenticateToken\<close> is the response it sends (\<open>Inl\<close>) or the user it attaches to the
  request before calling \<open>next()\<close> (\<open>Inr\<close>).
\<close>

definition authenticateToken :: "(string \<Rightarrow> claims option) \<Rightarrow> string option \<Rightarrow> (nat \<times> string) + claims" where
  "authenticateToken jwt_verify authHeader =
     (case bearer_token authHeader of
        None \<Rightarrow> Inl (401, ''Access token required'')
      | Some token \<Rightarrow>
          (case jwt_verify token of
             None \<Rightarrow> Inl (403, ''Invalid token'')
           | Some user \<Rightarrow> Inr user))"

subsection \<open>\<open>proxyRequest\<close>\<close>

definition proxyRequest :: "backend \<Rightarrow> request \<Rightarrow> service \<Rightarrow> string \<Rightarrow> gateway \<Rightarrow> gateway \<times> gw_response" where
  "proxyRequest axios req serviceUrl p gw =
     (gw\<lparr>forwarded := forwarded gw @ [(serviceUrl, req_method req, p)]\<rparr>,
      case axios serviceUrl (req_method req) p (req_authorization req) (req_body req) of
        Reply status data \<Rightarrow> Gw_response status (Relayed data)
      | No_response \<Rightarrow> Gw_response 503 (Service_unavailable serviceUrl))"

subsection \<open>Route matching\<close>

text \<open>
  Express compares route paths without regard to case. A path \<open>'/api/users*'\<close> matches
  every request path that starts with \<open>/api/users\<close>; a path \<open>'/health'\<close> matches
  \<open>/health\<close> with or without a final slash.
\<close>

definition lower_char :: "char \<Rightarrow> char" where
  "lower_char c =
     (if 65 \<le> (of_char c :: nat) \<and> (of_char c :: nat) \<le> 90
      then char_of (of_char c + 32 :: nat) else c)"

definition starts_with :: "string \<Rightarrow> string \<Rightarrow> bool" where
  "starts_with pre s = (take (length pre) (map lower_char s) = pre)"

definition path_is :: "string \<Rightarrow> string \<Rightarrow> bool" where
  "path_is p s = (map lower_char s = p \<or> map lower_char s = p @ ''/'')"

text \<open>\<open>s.replace(pat, '')\<close> with a string pattern: the first occurrence of \<open>pat\<close> is removed.\<close>

fun remove_first :: "string \<Rightarrow> string \<Rightarrow> string" where
  "remove_first pat [] = []"
| "remove_first pat (c # cs) =
     (if take (length pat) (c # cs) = pat then drop (length pat) (c # cs)
      else c # remove_first pat cs)"

text \<open>
  The layers of the application in the order of their registration. The library
  middlewares registered first (\<open>helmet\<close>, \<open>cors\<close>, \<open>morgan\<close>, \<open>express.json\<close>) are taken to
  pass the request on.
\<close>

datatype layer =
    Get_health
  | Get_metrics
  | All_users
  | All_auth
  | All_products
  | All_orders
  | Use_rate_limit
  | Use_error_handler
  | Use_not_found

definition app_layers :: "layer list" where
  "app_layers =
     [Get_health, Get_metrics, All_users, All_auth, All_products, All_orders,
      Use_rate_limit, Use_error_handler, Use_not_found]"

text \<open>
  \<open>app.get\<close> routes answer \<open>GET\<close> and \<open>HEAD\<close>; \<open>app.all\<close> routes answer every method;
  \<open>app.use\<close> middlewares see every request that reaches them; the error handler (four
  arguments) is skipped unless an error was passed to \<open>next\<close>, which no layer here does.
\<close>

fun layer_matches :: "layer \<Rightarrow> request \<Rightarrow> bool" where
  "layer_matches Get_health req =
     ((req_method req = ''GET'' \<or> req_method req = ''HEAD'') \<and> path_is ''/health'' (req_path req))"
| "layer_matches Get_metrics req =
     ((req_method req = ''GET'' \<or> req_method req = ''HEAD'') \<and> path_is ''/metrics'' (req_path req))"
| "layer_matches All_users req = starts_with ''/api/users'' (req_path req)"
| "layer_matches All_auth req = starts_with ''/api/auth'' (req_path req)"
| "layer_matches All_products req = starts_with ''/api/products'' (req_path req)"
| "layer_matches All_orders req = starts_with ''/api/orders'' (req_path req)"
| "layer_matches Use_rate_limit req = True"
| "layer_matches Use_error_handler req = False"
| "layer_matches Use_not_found req = True"

text \<open>
  A handler either sends the response (\<open>Some\<close>) or calls \<open>next()\<close> (\<open>None\<close>).
\<close>

fun handle :: "backend \<Rightarrow> (string \<Rightarrow> claims option) \<Rightarrow> int \<Rightarrow> layer \<Rightarrow> request \<Rightarrow> gateway
    \<Rightarrow> gateway \<times> gw_response option" where
  "handle axios jwt_verify now Get_health req gw = (gw, Some (Gw_response 200 Health_body))"
| "handle axios jwt_verify now Get_metrics req gw = (gw, Some (Gw_response 200 Metrics_body))"
| "handle axios jwt_verify now All_users req gw =
     (case proxyRequest axios req User_service
             (''/users'' @ remove_first ''/api/users'' (req_path req)) gw of
        (gw', res) \<Rightarrow> (gw', Some res))"
| "handle axios jwt_verify now All_auth req gw =
     (case proxyRequest axios req User_service
             (''/auth'' @ remove_first ''/api/auth'' (req_path req)) gw of
        (gw', res) \<Rightarrow> (gw', Some res))"
| "handle axios jwt_verify now All_products req gw =
     (case proxyRequest axios req Product_service
             (''/products'' @ remove_first ''/api/products'' (req_path req)) gw of
        (gw', res) \<Rightarrow> (gw', Some res))"
| "handle axios jwt_verify now All_orders req gw =
     (case authenticateToken jwt_verify (req_authorization req) of
        Inl (status, msg) \<Rightarrow> (gw, Some (Gw_response status (Error_body msg)))
      | Inr user \<Rightarrow>
          (case proxyRequest axios req Order_service
                  (''/orders'' @ remove_first ''/api/orders'' (req_path req)) gw of
             (gw', res) \<Rightarrow> (gw', Some res)))"
| "handle axios jwt_verify now Use_rate_limit req gw =
     (case rate_limit_mw now (req_ip req) (rateLimit gw) of
        (rateLimit', Too_many_requests retryAfter) \<Rightarrow>
          (gw\<lparr>rateLimit := rateLimit'\<rparr>, Some (Gw_response 429 (Too_many_body retryAfter)))
      | (rateLimit', Next) \<Rightarrow> (gw\<lparr>rateLimit := rateLimit'\<rparr>, None))"
| "handle axios jwt_verify now Use_error_handler req gw =
     (gw, Some (Gw_response 500 (Error_body ''Internal server error'')))"
| "handle axios jwt_verify now Use_not_found req gw =
     (gw, Some (Gw_response 404 Route_not_found))"

text \<open>
  Express walks the layers in order: the first matching layer runs; the walk goes on to
  the following layers only when the handler calls \<open>next()\<close>.
\<close>

fun dispatch :: "backend \<Rightarrow> (string \<Rightarrow> claims option) \<Rightarrow> int \<Rightarrow> layer list \<Rightarrow> request \<Rightarrow> gateway
    \<Rightarrow> gateway \<times> gw_response option" where
  "dispatch axios jwt_verify now [] req gw = (gw, None)"
| "dispatch axios jwt_verify now (l # ls) req gw =
     (if layer_matches l req
      then (case handle axios jwt_verify now l req gw of
              (gw', Some res) \<Rightarrow> (gw', Some res)
            | (gw', None) \<Rightarrow> dispatch axios jwt_verify now ls req gw')
      else dispatch axios jwt_verify now ls req gw)"

definition gateway_request :: "backend \<Rightarrow> (string \<Rightarrow> claims option) \<Rightarrow> int \<Rightarrow> request \<Rightarrow> gateway
    \<Rightarrow> gateway \<times> gw_response option" where
  "gateway_request axios jwt_verify now req gw = dispatch axios jwt_verify now app_layers req gw"

section \<open>Order Service: data\<close>

text \<open>
  A finite JavaScript number is written as the rational that its decimal text denotes
  (\<open>0.1\<close> is \<open>1/10\<close>): this is how a number arrives in JSON and how the driver sends it
  to the database. The result of \<open>*\<close> or \<open>+\<close> is a double again: a finite number,
  an infinity or \<open>NaN\<close>. The two operations are not computed here: they are parameters
  \<open>js_mul\<close> and \<open>js_add\<close> of the operations below, which give the result of the IEEE
  operation. Identifiers and instants are integers.
\<close>

datatype js_number = Finite rat | Pos_infinity | Neg_infinity | Not_a_number

text \<open>
  An element of \<open>req.body.items\<close>, and the data of a successful answer of the product
  service to \<open>GET /products/:id\<close>.
\<close>

record item =
  productId :: string
  quantity :: rat

record product =
  name :: string
  price :: rat

text \<open>An element of \<open>validatedItems\<close>: \<open>{ productId, productName, quantity, price }\<close>.\<close>

record validated_item =
  v_productId :: string
  v_productName :: string
  v_quantity :: rat
  v_price :: rat

text \<open>A value of a \<open>DECIMAL\<close> column: a decimal number, or \<open>NaN\<close>.\<close>

datatype decimal = Decimal rat | Decimal_NaN

text \<open>
  The two tables of \<open>initDB\<close>. The columns keep their names, with a prefix that tells the
  tables apart (\<open>o_\<close> for \<open>orders\<close>, \<open>i_\<close> for \<open>order_items\<close>).
\<close>

record order_row =
  o_id :: int
  o_user_id :: int
  o_status :: string
  o_total_amount :: decimal
  o_shipping_address :: string
  o_created_at :: int
  o_updated_at :: int

record order_item_row =
  i_id :: int
  i_order_id :: int
  i_product_id :: string
  i_product_name :: string
  i_quantity :: int
  i_price :: rat
  i_created_at :: int

text \<open>
  The database: the rows of both tables in insertion order and the next value of the
  sequence behind each \<open>SERIAL\<close> column.
\<close>

record store =
  orders :: "order_row list"
  order_items :: "order_item_row list"
  orders_id_seq :: int
  order_items_id_seq :: int

subsection \<open>Column types\<close>

text \<open>
  A value written to a \<open>DECIMAL(10,2)\<close> column is rounded to two decimal places, halves
  away from zero, and rejected when the rounded value needs more than eight digits before
  the point.
\<close>

definition round_half_away :: "rat \<Rightarrow> int" where
  "round_half_away x = (if 0 \<le> x then \<lfloor>x + 1 / 2\<rfloor> else - \<lfloor>- x + 1 / 2\<rfloor>)"

definition decimal_10_2 :: "rat \<Rightarrow> rat option" where
  "decimal_10_2 x =
     (let n = round_half_away (x * 100)
      in if \<bar>n\<bar> < 10000000000 then Some (of_int n / 100) else None)"

text \<open>
  The total of an order as the \<open>total_amount\<close> column takes it: a finite number is
  rounded as above, \<open>NaN\<close> is stored as it is, and an infinity is rejected.
\<close>

definition total_amount_column :: "js_number \<Rightarrow> decimal option" where
  "total_amount_column x =
     (case x of
        Finite r \<Rightarrow> map_option Decimal (decimal_10_2 r)
      | Pos_infinity \<Rightarrow> None
      | Neg_infinity \<Rightarrow> None
      | Not_a_number \<Rightarrow> Some Decimal_NaN)"

text \<open>
  A number bound to an \<open>INTEGER\<close> column must be a whole number between \<open>-2^31\<close> and
  \<open>2^31 - 1\<close>; anything else is rejected.
\<close>

definition integer_in :: "rat \<Rightarrow> int option" where
  "integer_in q =
     (if q = of_int \<lfloor>q\<rfloor> \<and> - 2147483648 \<le> \<lfloor>q\<rfloor> \<and> \<lfloor>q\<rfloor> \<le> 2147483647
      then Some \<lfloor>q\<rfloor> else None)"

text \<open>
  A string written to a \<open>VARCHAR(255)\<close> column is rejected when it is longer than 255
  characters, unless the excess is all spaces, which is then cut off.
\<close>

definition varchar_255 :: "string \<Rightarrow> string option" where
  "varchar_255 s =
     (if length s \<le> 255 then Some s
      else if list_all (\<lambda>c. c = CHR '' '') (drop 255 s) then Some (take 255 s)
      else None)"

subsection \<open>Responses and the trace of a request\<close>

text \<open>An order with its items, as \<open>getOrderById\<close> and \<open>GET /orders\<close> build it.\<close>

record order_view =
  view_order :: order_row
  view_items :: "order_item_row list"

record pagination =
  pg_page :: int
  pg_limit :: int
  pg_total :: nat

datatype body =
    Error string
  | Message string
  | Order_created "order_view option"
  | Order_body order_view
  | Status_updated "order_view option"
  | Order_list "order_view list" pagination

datatype response = Response nat body

text \<open>
  What \<open>POST /orders\<close> does on its connection and towards the product service, in order:
  \<open>pool.connect()\<close>, the statements \<open>BEGIN\<close>, \<open>COMMIT\<close> and \<open>ROLLBACK\<close>, the two kinds of
  \<open>INSERT\<close> (an item is named by its product), the calls \<open>GET /products/:id\<close>, and
  \<open>client.release()\<close>.
\<close>

datatype event =
    Connect
  | Query_begin
  | Product_get string
  | Insert_order
  | Insert_item string
  | Query_commit
  | Query_rollback
  | Release

section \<open>Order Service: operations\<close>

text \<open>
  Each operation below is the handler of a route, run after \<open>authenticateToken\<close> has
  accepted the token: \<open>userId\<close> is \<open>req.user.userId\<close>, \<open>now\<close> is the value of
  \<open>CURRENT_TIMESTAMP\<close>, and the product service is taken not to change during a request.

  The routes with \<open>:id\<close> bind \<open>req.params.id\<close>, a text taken from the URL, to a
  parameter that the database compares with the \<open>INTEGER\<close> column \<open>id\<close>. How the
  database reads such a text is the parameter \<open>int4in\<close> of these operations: \<open>None\<close>
  when it rejects the text (not a number, or outside the range of the type), which makes
  \<open>pool.query\<close> throw and sends the handler to its \<open>catch\<close> block.
\<close>

subsection \<open>\<open>getOrderById\<close>\<close>

text \<open>
  \<open>orderId\<close> is the id as the database has read it from the parameter (a parameter it
  cannot read is the business of the handlers below). \<open>userId\<close> is \<open>None\<close> for the
  default \<open>null\<close>; the owner is part of the query only when \<open>userId\<close> is truthy, that
  is neither \<open>null\<close> nor \<open>0\<close>.
\<close>

definition getOrderById :: "store \<Rightarrow> int \<Rightarrow> int option \<Rightarrow> order_view option" where
  "getOrderById db orderId userId =
     (let rows =
            (case userId of
               None \<Rightarrow> filter (\<lambda>row. o_id row = orderId) (orders db)
             | Some u \<Rightarrow>
                 if u \<noteq> 0
                 then filter (\<lambda>row. o_id row = orderId \<and> o_user_id row = u) (orders db)
                 else filter (\<lambda>row. o_id row = orderId) (orders db))
      in case rows of
           [] \<Rightarrow> None
         | order # _ \<Rightarrow>
             Some \<lparr>view_order = order,
                   view_items = filter (\<lambda>i. i_order_id i = orderId) (order_items db)\<rparr>)"

subsection \<open>\<open>POST /orders\<close>\<close>

text \<open>
  The validation loop. \<open>fetch\<close> is the call to the product service: \<open>None\<close> when
  \<open>axios.get\<close> throws (no answer, or a status outside 2xx). The loop returns at the first
  such item with its \<open>productId\<close>; otherwise it returns \<open>totalAmount\<close> and
  \<open>validatedItems\<close>. \<open>itemTotal\<close> is \<open>js_mul (price product) (quantity item)\<close>, and
  \<open>totalAmount += itemTotal\<close> is \<open>js_add totalAmount itemTotal\<close>.
\<close>

fun validate_items :: "(rat \<Rightarrow> rat \<Rightarrow> js_number) \<Rightarrow> (js_number \<Rightarrow> js_number \<Rightarrow> js_number)
    \<Rightarrow> (string \<Rightarrow> product option) \<Rightarrow> item list \<Rightarrow> js_number \<Rightarrow> validated_item list
    \<Rightarrow> event list \<Rightarrow> (string + js_number \<times> validated_item list) \<times> event list" where
  "validate_items js_mul js_add fetch [] totalAmount validatedItems tr =
     (Inr (totalAmount, validatedItems), tr)"
| "validate_items js_mul js_add fetch (item # items) totalAmount validatedItems tr =
     (case fetch (productId item) of
        None \<Rightarrow> (Inl (productId item), tr @ [Product_get (productId item)])
      | Some product \<Rightarrow>
          validate_items js_mul js_add fetch items
            (js_add totalAmount (js_mul (price product) (quantity item)))
            (validatedItems @
               [\<lparr>v_productId = productId item, v_productName = name product,
                 v_quantity = quantity item, v_price = price product\<rparr>])
            (tr @ [Product_get (productId item)]))"

text \<open>
  \<open>INSERT INTO orders (user_id, total_amount, shipping_address) ... RETURNING *\<close>: the
  other columns take their defaults. \<open>None\<close> when the statement is rejected.
\<close>

definition insert_order :: "int \<Rightarrow> int \<Rightarrow> js_number \<Rightarrow> string \<Rightarrow> store \<Rightarrow> (store \<times> order_row) option" where
  "insert_order now userId totalAmount shippingAddress db =
     (case total_amount_column totalAmount of
        None \<Rightarrow> None
      | Some amount \<Rightarrow>
          (let order = \<lparr>o_id = orders_id_seq db, o_user_id = userId, o_status = ''pending'',
                        o_total_amount = amount, o_shipping_address = shippingAddress,
                        o_created_at = now, o_updated_at = now\<rparr>
           in Some (db\<lparr>orders := orders db @ [order],
                       orders_id_seq := orders_id_seq db + 1\<rparr>, order)))"

text \<open>
  \<open>INSERT INTO order_items (order_id, product_id, product_name, quantity, price)\<close>.
\<close>

definition insert_order_item :: "int \<Rightarrow> int \<Rightarrow> validated_item \<Rightarrow> store \<Rightarrow> store option" where
  "insert_order_item now orderId item db =
     (case (varchar_255 (v_productId item), varchar_255 (v_productName item),
            integer_in (v_quantity item), decimal_10_2 (v_price item)) of
        (Some pid, Some pname, Some q, Some p) \<Rightarrow>
          Some (db\<lparr>order_items := order_items db @
                       [\<lparr>i_id = order_items_id_seq db, i_order_id = orderId,
                         i_product_id = pid, i_product_name = pname, i_quantity = q,
                         i_price = p, i_created_at = now\<rparr>],
                     order_items_id_seq := order_items_id_seq db + 1\<rparr>)
      | _ \<Rightarrow> None)"

text \<open>
  The loop over \<open>validatedItems\<close>: it stops at the first rejected statement (\<open>Inl\<close>, with
  the database as the statements before it left it).
\<close>

fun insert_order_items :: "int \<Rightarrow> int \<Rightarrow> validated_item list \<Rightarrow> store \<Rightarrow> event list
    \<Rightarrow> (store + store) \<times> event list" where
  "insert_order_items now orderId [] db tr = (Inr db, tr)"
| "insert_order_items now orderId (item # items) db tr =
     (case insert_order_item now orderId item db of
        None \<Rightarrow> (Inl db, tr @ [Insert_item (v_productId item)])
      | Some db' \<Rightarrow>
          insert_order_items now orderId items db' (tr @ [Insert_item (v_productId item)]))"

text \<open>
  \<open>ROLLBACK\<close> takes the rows back to what they were at \<open>BEGIN\<close>. Sequence values are not
  given back. (Whether a rejected \<open>INSERT\<close> consumes a sequence value cannot be observed
  through any operation of the service; here it consumes none.)
\<close>

definition rollback :: "store \<Rightarrow> store \<Rightarrow> store" where
  "rollback at_begin db =
     at_begin\<lparr>orders_id_seq := orders_id_seq db, order_items_id_seq := order_items_id_seq db\<rparr>"

text \<open>
  The handler, after \<open>authenticateToken\<close> has set \<open>req.user\<close>. \<open>items\<close> is \<open>None\<close> when
  the body has no such field. The result is the database after the request, the response,
  and the trace. A \<open>return\<close> inside \<open>try\<close> runs the \<open>finally\<close> block and nothing else; an
  exception runs the \<open>catch\<close> block and then \<open>finally\<close>.
\<close>

definition create_order :: "(rat \<Rightarrow> rat \<Rightarrow> js_number) \<Rightarrow> (js_number \<Rightarrow> js_number \<Rightarrow> js_number)
    \<Rightarrow> (string \<Rightarrow> product option) \<Rightarrow> int \<Rightarrow> int \<Rightarrow> item list option \<Rightarrow> string
    \<Rightarrow> store \<Rightarrow> store \<times> response \<times> event list" where
  "create_order js_mul js_add fetch now userId items shippingAddress db =
     (case items of
        None \<Rightarrow> (db, Response 400 (Error ''Order items are required''),
                  [Connect, Query_begin, Release])
      | Some [] \<Rightarrow> (db, Response 400 (Error ''Order items are required''),
                     [Connect, Query_begin, Release])
      | Some (i # is) \<Rightarrow>
          (case validate_items js_mul js_add fetch (i # is) (Finite 0) []
                  [Connect, Query_begin] of
             (Inl pid, tr) \<Rightarrow>
               (db, Response 400 (Error (''Invalid product: '' @ pid)), tr @ [Release])
           | (Inr (totalAmount, validatedItems), tr) \<Rightarrow>
               (case insert_order now userId totalAmount shippingAddress db of
                  None \<Rightarrow>
                    (rollback db db, Response 500 (Error ''Internal server error''),
                     tr @ [Insert_order, Query_rollback, Release])
                | Some (db1, order) \<Rightarrow>
                    (case insert_order_items now (o_id order) validatedItems db1
                            (tr @ [Insert_order]) of
                       (Inl db2, tr2) \<Rightarrow>
                         (rollback db db2, Response 500 (Error ''Internal server error''),
                          tr2 @ [Query_rollback, Release])
                     | (Inr db2, tr2) \<Rightarrow>
                         (db2,
                          Response 201 (Order_created (getOrderById db2 (o_id order) None)),
                          tr2 @ [Query_commit, Release])))))"

subsection \<open>\<open>GET /orders\<close>\<close>

text \<open>
  \<open>page\<close> and \<open>limit\<close> default to 1 and 10; the status filter applies when \<open>status\<close> is
  truthy (present and not empty). \<open>ORDER BY created_at DESC\<close> is a stable sort here: rows
  with equal \<open>created_at\<close> keep their insertion order. The database rejects a negative
  \<open>LIMIT\<close> or \<open>OFFSET\<close>, which the handler answers with 500.
\<close>

definition list_orders :: "int \<Rightarrow> int option \<Rightarrow> int option \<Rightarrow> string option \<Rightarrow> store \<Rightarrow> response" where
  "list_orders userId page_q limit_q status db =
     (let page = (case page_q of None \<Rightarrow> 1 | Some p \<Rightarrow> p);
          limit = (case limit_q of None \<Rightarrow> 10 | Some l \<Rightarrow> l);
          matching =
            (case status of
               None \<Rightarrow> filter (\<lambda>row. o_user_id row = userId) (orders db)
             | Some s \<Rightarrow>
                 if s \<noteq> []
                 then filter (\<lambda>row. o_user_id row = userId \<and> o_status row = s) (orders db)
                 else filter (\<lambda>row. o_user_id row = userId) (orders db));
          ordered = sort_key (\<lambda>row. - o_created_at row) matching;
          offset = (page - 1) * limit
      in if limit < 0 \<or> offset < 0 then Response 500 (Error ''Internal server error'')
         else
           (let rows = take (nat limit) (drop (nat offset) ordered);
                orders_out =
                  map (\<lambda>order.
                         \<lparr>view_order = order,
                          view_items = filter (\<lambda>i. i_order_id i = o_id order) (order_items db)\<rparr>)
                      rows
            in Response 200
                 (Order_list orders_out
                    \<lparr>pg_page = page, pg_limit = limit, pg_total = length rows\<rparr>)))"

subsection \<open>\<open>GET /orders/:id\<close>\<close>

definition get_order :: "(string \<Rightarrow> int option) \<Rightarrow> int \<Rightarrow> string \<Rightarrow> store \<Rightarrow> response" where
  "get_order int4in userId orderId db =
     (case int4in orderId of
        None \<Rightarrow> Response 500 (Error ''Internal server error'')
      | Some n \<Rightarrow>
          (case getOrderById db n (Some userId) of
             None \<Rightarrow> Response 404 (Error ''Order not found'')
           | Some order \<Rightarrow> Response 200 (Order_body order)))"

subsection \<open>\<open>PATCH /orders/:id/status\<close>\<close>

definition validStatuses :: "string list" where
  "validStatuses =
     [''pending'', ''confirmed'', ''processing'', ''shipped'', ''delivered'', ''cancelled'']"

text \<open>
  \<open>UPDATE orders SET status = $1, updated_at = CURRENT_TIMESTAMP WHERE id = $2 AND
  user_id = $3 RETURNING *\<close>: the rows the statement returns, and the table after it.
\<close>

definition update_where :: "(order_row \<Rightarrow> bool) \<Rightarrow> string \<Rightarrow> int \<Rightarrow> store \<Rightarrow> order_row list \<times> store" where
  "update_where hit status now db =
     (map (\<lambda>row. row\<lparr>o_status := status, o_updated_at := now\<rparr>) (filter hit (orders db)),
      db\<lparr>orders := map (\<lambda>row. if hit row then row\<lparr>o_status := status, o_updated_at := now\<rparr> else row)
                       (orders db)\<rparr>)"

definition update_status :: "(string \<Rightarrow> int option) \<Rightarrow> int \<Rightarrow> int \<Rightarrow> string \<Rightarrow> string \<Rightarrow> store
    \<Rightarrow> store \<times> response" where
  "update_status int4in now userId orderId status db =
     (if status \<notin> set validStatuses
      then (db, Response 400 (Error ''Invalid status''))
      else
        (case int4in orderId of
           None \<Rightarrow> (db, Response 500 (Error ''Internal server error''))
         | Some n \<Rightarrow>
             (case update_where (\<lambda>row. o_id row = n \<and> o_user_id row = userId) status now db of
                (rows, db') \<Rightarrow>
                  if length rows = 0 then (db', Response 404 (Error ''Order not found''))
                  else (db', Response 200 (Status_updated (getOrderById db' n (Some userId)))))))"

subsection \<open>\<open>DELETE /orders/:id\<close>\<close>

definition cancel_order :: "(string \<Rightarrow> int option) \<Rightarrow> int \<Rightarrow> int \<Rightarrow> string \<Rightarrow> store \<Rightarrow> store \<times> response" where
  "cancel_order int4in now userId orderId db =
     (case int4in orderId of
        None \<Rightarrow> (db, Response 500 (Error ''Internal server error''))
      | Some n \<Rightarrow>
          (case update_where
                  (\<lambda>row. o_id row = n \<and> o_user_id row = userId
                         \<and> (o_status row = ''pending'' \<or> o_status row = ''confirmed''))
                  ''cancelled'' now db of
             (rows, db') \<Rightarrow>
               if length rows = 0
               then (db', Response 404 (Error ''Order not found or cannot be cancelled''))
               else (db', Response 200 (Message ''Order cancelled successfully''))))"

section \<open>Reading traces and responses\<close>

text \<open>
  The products looked up during a request, in the order of the calls, and the statements
  that close a transaction, in the order they were issued.
\<close>

fun lookups :: "event list \<Rightarrow> string list" where
  "lookups [] = []"
| "lookups (Product_get p # es) = p # lookups es"
| "lookups (e # es) = lookups es"

fun closings :: "event list \<Rightarrow> event list" where
  "closings [] = []"
| "closings (Query_commit # es) = Query_commit # closings es"
| "closings (Query_rollback # es) = Query_rollback # closings es"
| "closings (e # es) = closings es"

fun status_code :: "response \<Rightarrow> nat" where
  "status_code (Response code b) = code"

text \<open>
  The JavaScript sum of the order lines, for items and the products found for them: from
  0, for each item in turn, the sum so far plus the price snapshot times the quantity,
  both operations being those of doubles.
\<close>

definition js_total :: "(rat \<Rightarrow> rat \<Rightarrow> js_number) \<Rightarrow> (js_number \<Rightarrow> js_number \<Rightarrow> js_number)
    \<Rightarrow> (item \<times> product) list \<Rightarrow> js_number" where
  "js_total js_mul js_add lines =
     foldl (\<lambda>totalAmount (it, p). js_add totalAmount (js_mul (price p) (quantity it)))
       (Finite 0) lines"

text \<open>The entry of \<open>validatedItems\<close> built from an item and the product found for it.\<close>

definition validated :: "item \<times> product \<Rightarrow> validated_item" where
  "validated = (\<lambda>(it, p). \<lparr>v_productId = productId it, v_productName = name p,
                             v_quantity = quantity it, v_price = price p\<rparr>)"

section \<open>Example data\<close>

text \<open>
  Operations for the examples: the exact product and the exact sum. They give what the
  double operations give wherever the text of the double result denotes the exact result,
  as for \<open>x * 1\<close>, \<open>0 + x\<close>, and the sums and products of small whole numbers and halves;
  the examples use no other.
\<close>

definition exact_mul :: "rat \<Rightarrow> rat \<Rightarrow> js_number" where
  "exact_mul a b = Finite (a * b)"

fun exact_add :: "js_number \<Rightarrow> js_number \<Rightarrow> js_number" where
  "exact_add (Finite a) (Finite b) = Finite (a + b)"
| "exact_add x y = Not_a_number"

text \<open>
  A reading of \<open>INTEGER\<close> parameters for the examples: it accepts the decimal numerals
  of the range of the type, with an optional minus sign, and rejects every other text.
  (A server reads some further spellings, such as a numeral between spaces; the examples
  use none.)
\<close>

definition digit_of :: "char \<Rightarrow> nat option" where
  "digit_of c =
     (if 48 \<le> (of_char c :: nat) \<and> (of_char c :: nat) \<le> 57
      then Some (of_char c - 48) else None)"

fun digits_of :: "string \<Rightarrow> nat \<Rightarrow> nat option" where
  "digits_of [] acc = Some acc"
| "digits_of (c # cs) acc =
     (case digit_of c of
        None \<Rightarrow> None
      | Some d \<Rightarrow> digits_of cs (10 * acc + d))"

definition decimal_int4 :: "string \<Rightarrow> int option" where
  "decimal_int4 s =
     (case s of
        [] \<Rightarrow> None
      | c # cs \<Rightarrow>
          if c = CHR ''-''
          then (if cs = [] then None
                else (case digits_of cs 0 of
                        None \<Rightarrow> None
                      | Some n \<Rightarrow> if int n \<le> 2147483648 then Some (- int n) else None))
          else (case digits_of (c # cs) 0 of
                  None \<Rightarrow> None
                | Some n \<Rightarrow> if int n \<le> 2147483647 then Some (int n) else None))"

text \<open>
  A database without rows, and a product service that knows two products: \<open>p1\<close> at
  50.00 and \<open>p2\<close> at 9.999.
\<close>

definition empty_store :: store where
  "empty_store = \<lparr>orders = [], order_items = [], orders_id_seq = 1, order_items_id_seq = 1\<rparr>"

definition catalog :: "string \<Rightarrow> product option" where
  "catalog =
     [''p1'' \<mapsto> \<lparr>name = ''Widget'', price = 50\<rparr>,
      ''p2'' \<mapsto> \<lparr>name = ''Gadget'', price = 9999 / 1000\<rparr>]"

text \<open>
  A database with four orders: three of user 3 (delivered, confirmed and shipped) and one
  of user 5 (pending).
\<close>

definition sample_store :: store where
  "sample_store =
     \<lparr>orders =
        [\<lparr>o_id = 1, o_user_id = 3, o_status = ''delivered'', o_total_amount = Decimal 100,
          o_shipping_address = ''{}'', o_created_at = 10, o_updated_at = 20\<rparr>,
         \<lparr>o_id = 2, o_user_id = 5, o_status = ''pending'', o_total_amount = Decimal 50,
          o_shipping_address = ''{}'', o_created_at = 30, o_updated_at = 30\<rparr>,
         \<lparr>o_id = 3, o_user_id = 3, o_status = ''confirmed'', o_total_amount = Decimal 50,
          o_shipping_address = ''{}'', o_created_at = 40, o_updated_at = 40\<rparr>,
         \<lparr>o_id = 4, o_user_id = 3, o_status = ''shipped'', o_total_amount = Decimal 150,
          o_shipping_address = ''{}'', o_created_at = 50, o_updated_at = 60\<rparr>],
      order_items =
        [\<lparr>i_id = 1, i_order_id = 1, i_product_id = ''p1'', i_product_name = ''Widget'',
          i_quantity = 2, i_price = 50, i_created_at = 10\<rparr>],
      orders_id_seq = 5, order_items_id_seq = 2\<rparr>"

section \<open>Properties of the rate limiting middleware\<close>

lemma touch_fresh:
  "entry = None \<or> (\<exists>b. entry = Some b \<and> now > resetTime b) \<Longrightarrow>
   touch_bucket now entry = \<lparr>count = 1, resetTime = now + 60000\<rparr>"
  by (auto simp: touch_bucket_def RATE_LIMIT_WINDOW_def)

lemma touch_in_window:
  "\<not> now > resetTime b \<Longrightarrow> touch_bucket now (Some b) = b\<lparr>count := count b + 1\<rparr>"
  by (simp add: touch_bucket_def)

lemma rate_limit_mw_bucket:
  "fst (rate_limit_mw now k rl) = rl(k \<mapsto> touch_bucket now (rl k))"
  by (simp add: rate_limit_mw_def Let_def)

lemma rate_limit_mw_other_client:
  "k' \<noteq> k \<Longrightarrow> fst (rate_limit_mw now k' rl) k = rl k"
  by (simp add: rate_limit_mw_bucket)

lemma rate_limit_mw_decision:
  "snd (rate_limit_mw now k rl) =
     (let b = touch_bucket now (rl k) in
      if count b > 100 then Too_many_requests (ceil_seconds (resetTime b - now)) else Next)"
  by (simp add: rate_limit_mw_def Let_def RATE_LIMIT_MAX_REQUESTS_def)

lemma snd_serve_Cons:
  "snd (serve ((now, c) # reqs) rl) =
     snd (rate_limit_mw now c rl) # snd (serve reqs (fst (rate_limit_mw now c rl)))"
  by (simp split: prod.splits)

lemma answers_to_Nil: "answers_to k [] (snd (serve [] rl)) = []"
  by (simp add: answers_to_def)

lemma answers_to_Cons:
  "answers_to k ((now, c) # reqs) (snd (serve ((now, c) # reqs) rl)) =
     (if c = k
      then snd (rate_limit_mw now c rl)
             # answers_to k reqs (snd (serve reqs (fst (rate_limit_mw now c rl))))
      else answers_to k reqs (snd (serve reqs (fst (rate_limit_mw now c rl)))))"
  by (simp add: answers_to_def snd_serve_Cons del: serve.simps(2))

lemma instants_of_Cons:
  "instants_of k ((now, c) # reqs) = (if c = k then now # instants_of k reqs else instants_of k reqs)"
  by (simp add: instants_of_def)

lemma length_answers_to:
  "length (answers_to k reqs (snd (serve reqs rl))) = length (instants_of k reqs)"
proof (induction reqs arbitrary: rl)
  case Nil
  then show ?case by (simp add: answers_to_def instants_of_def)
next
  case (Cons r reqs)
  obtain now c where r: "r = (now, c)" by (cases r)
  show ?case
    unfolding r answers_to_Cons instants_of_Cons using Cons.IH by simp
qed

text \<open>
  Inside a window: while the requests of the client stay at or before \<open>resetTime\<close>,
  whatever the other clients do, the client's \<open>i\<close>-th next request is the one that brings
  \<open>count\<close> to \<open>count + i + 1\<close>.
\<close>

lemma answers_in_window:
  "rl k = Some b \<Longrightarrow> \<forall>t\<in>set (instants_of k reqs). t \<le> resetTime b \<Longrightarrow>
   i < length (instants_of k reqs) \<Longrightarrow>
   answers_to k reqs (snd (serve reqs rl)) ! i =
     (if count b + int i + 1 > 100
      then Too_many_requests (ceil_seconds (resetTime b - instants_of k reqs ! i)) else Next)"
proof (induction reqs arbitrary: rl b i)
  case Nil
  then show ?case by (simp add: instants_of_def)
next
  case (Cons r reqs)
  obtain t c where r: "r = (t, c)" by (cases r)
  let ?rl' = "fst (rate_limit_mw t c rl)"
  show ?case
  proof (cases "c = k")
    case False
    have rl': "?rl' k = Some b"
      using Cons.prems(1) False by (simp add: rate_limit_mw_bucket)
    have win: "\<forall>u\<in>set (instants_of k reqs). u \<le> resetTime b"
      using Cons.prems(2) False by (simp add: r instants_of_Cons)
    have i: "i < length (instants_of k reqs)"
      using Cons.prems(3) False by (simp add: r instants_of_Cons)
    have "answers_to k reqs (snd (serve reqs ?rl')) ! i =
       (if count b + int i + 1 > 100
        then Too_many_requests (ceil_seconds (resetTime b - instants_of k reqs ! i)) else Next)"
      using rl' win i by (rule Cons.IH)
    then show ?thesis
      unfolding r answers_to_Cons instants_of_Cons using False by simp
  next
    case True
    let ?b' = "b\<lparr>count := count b + 1\<rparr>"
    have t: "t \<le> resetTime b"
      using Cons.prems(2) True by (simp add: r instants_of_Cons)
    have tb: "touch_bucket t (rl k) = ?b'"
      using Cons.prems(1) t by (simp add: touch_bucket_def)
    have rl': "?rl' k = Some ?b'"
      using tb True by (simp add: rate_limit_mw_bucket)
    have d: "snd (rate_limit_mw t c rl) =
        (if count b + 1 > 100 then Too_many_requests (ceil_seconds (resetTime b - t)) else Next)"
      using tb True by (simp add: rate_limit_mw_decision Let_def)
    show ?thesis
    proof (cases i)
      case 0
      then show ?thesis
        unfolding r answers_to_Cons instants_of_Cons using True d by simp
    next
      case (Suc j)
      have win: "\<forall>u\<in>set (instants_of k reqs). u \<le> resetTime ?b'"
        using Cons.prems(2) True by (simp add: r instants_of_Cons)
      have j: "j < length (instants_of k reqs)"
        using Cons.prems(3) True Suc by (simp add: r instants_of_Cons)
      have "answers_to k reqs (snd (serve reqs ?rl')) ! j =
         (if count ?b' + int j + 1 > 100
          then Too_many_requests (ceil_seconds (resetTime ?b' - instants_of k reqs ! j)) else Next)"
        using rl' win j by (rule Cons.IH)
      then show ?thesis
        unfolding r answers_to_Cons instants_of_Cons using True Suc
        by (simp add: add.commute add.left_commute)
    qed
  qed
qed

text \<open>
  From the start of a window: the client's first request at \<open>t0\<close> opens it, and its later
  requests up to \<open>t0 + 60000\<close> are counted in it, whatever the other clients do in between.
\<close>

lemma answers_from_window_start:
  "rl k = None \<or> (\<exists>b. rl k = Some b \<and> t0 > resetTime b) \<Longrightarrow>
   instants_of k reqs = t0 # ts \<Longrightarrow> \<forall>t\<in>set ts. t \<le> t0 + 60000 \<Longrightarrow> i \<le> length ts \<Longrightarrow>
   answers_to k reqs (snd (serve reqs rl)) ! i =
     (if i < 100 then Next
      else Too_many_requests (ceil_seconds (t0 + 60000 - (t0 # ts) ! i)))"
proof (induction reqs arbitrary: rl)
  case Nil
  then show ?case by (simp add: instants_of_def)
next
  case (Cons r reqs)
  obtain t c where r: "r = (t, c)" by (cases r)
  let ?rl' = "fst (rate_limit_mw t c rl)"
  show ?case
  proof (cases "c = k")
    case False
    have fresh: "?rl' k = None \<or> (\<exists>b. ?rl' k = Some b \<and> t0 > resetTime b)"
      using Cons.prems(1) False by (simp add: rate_limit_mw_bucket)
    have inst: "instants_of k reqs = t0 # ts"
      using Cons.prems(2) False by (simp add: r instants_of_Cons)
    have "answers_to k reqs (snd (serve reqs ?rl')) ! i =
       (if i < 100 then Next
        else Too_many_requests (ceil_seconds (t0 + 60000 - (t0 # ts) ! i)))"
      using fresh inst Cons.prems(3,4) by (rule Cons.IH)
    then show ?thesis
      unfolding r answers_to_Cons using False by simp
  next
    case True
    let ?b = "\<lparr>count = 1, resetTime = t0 + 60000\<rparr>"
    have t: "t = t0" and inst: "instants_of k reqs = ts"
      using Cons.prems(2) True by (simp_all add: r instants_of_Cons)
    have tb: "touch_bucket t (rl k) = ?b"
      using Cons.prems(1) by (simp add: touch_fresh t)
    have rl': "?rl' k = Some ?b"
      using tb True by (simp add: rate_limit_mw_bucket)
    have d: "snd (rate_limit_mw t c rl) = Next"
      using tb True by (simp add: rate_limit_mw_decision)
    show ?thesis
    proof (cases i)
      case 0
      then show ?thesis
        unfolding r answers_to_Cons using True d by simp
    next
      case (Suc j)
      have win: "\<forall>u\<in>set (instants_of k reqs). u \<le> resetTime ?b"
        using Cons.prems(3) inst by simp
      have j: "j < length (instants_of k reqs)"
        using Cons.prems(4) Suc inst by simp
      have "answers_to k reqs (snd (serve reqs ?rl')) ! j =
         (if count ?b + int j + 1 > 100
          then Too_many_requests (ceil_seconds (resetTime ?b - instants_of k reqs ! j)) else Next)"
        using answers_in_window [where rl = "?rl'" and b = "?b" and k = k and reqs = reqs and i = j]
          rl' win j by simp
      then show ?thesis
        unfolding r answers_to_Cons using True Suc inst by auto
    qed
  qed
qed

lemma ceil_seconds_least: "1000 * (ceil_seconds ms - 1) < ms \<and> ms \<le> 1000 * ceil_seconds ms"
proof -
  define q where "q = (- ms) div 1000"
  define r where "r = (- ms) mod 1000"
  have *: "- ms = q * 1000 + r" "0 \<le> r" "r < 1000"
    by (simp_all add: q_def r_def)
  have "1000 * (- q - 1) < ms" using * by simp
  moreover have "ms \<le> 1000 * - q" using * by simp
  ultimately show ?thesis
    by (simp add: ceil_seconds_def q_def)
qed

lemma ceil_seconds_bounds:
  assumes "0 \<le> ms" "ms \<le> 60000"
  shows "0 \<le> ceil_seconds ms \<and> ceil_seconds ms \<le> 60"
proof -
  have "1000 * (ceil_seconds ms - 1) < ms" "ms \<le> 1000 * ceil_seconds ms"
    using ceil_seconds_least [of ms] by simp_all
  with assms show ?thesis by simp
qed

text \<open>
  C5. For every client key, the middleware resets the key's bucket to \<open>count = 1\<close> and
  \<open>resetTime = now + 60000\<close> when the key has no bucket or when \<open>now > resetTime\<close>, and
  increments \<open>count\<close> otherwise; it leaves the buckets of the other keys alone, and it
  answers 429 exactly when the new \<open>count\<close> exceeds 100, with \<open>retryAfter\<close> the
  milliseconds left until \<open>resetTime\<close> divided by 1000 and rounded up. Take any sequence of
  requests of any clients in which the requests of the client \<open>k\<close> are at the instants
  \<open>now\<close> and then \<open>ts\<close>, where \<open>now\<close> opens a window for \<open>k\<close> and the instants \<open>ts\<close> lie
  between \<open>now\<close> and \<open>now + 60000\<close>. Then the first hundred requests of \<open>k\<close>, the 100th
  included, are passed on, and the 101st and every later one is answered 429, with a
  \<open>retryAfter\<close> between 0 and 60 that is the least whole number of seconds not below the
  time left.
\<close>

theorem rate_limit_fixed_window:
  "((rl k = None \<or> (\<exists>b. rl k = Some b \<and> now > resetTime b)) \<longrightarrow>
      fst (rate_limit_mw now k rl) k = Some \<lparr>count = 1, resetTime = now + 60000\<rparr>)
   \<and> ((rl0 k = Some b0 \<and> \<not> now0 > resetTime b0) \<longrightarrow>
      fst (rate_limit_mw now0 k rl0) k = Some (b0\<lparr>count := count b0 + 1\<rparr>))
   \<and> (k' \<noteq> k \<longrightarrow> fst (rate_limit_mw now k rl) k' = rl k')
   \<and> (\<exists>b. fst (rate_limit_mw now k rl) k = Some b
         \<and> snd (rate_limit_mw now k rl) =
             (if count b > 100 then Too_many_requests (ceil_seconds (resetTime b - now))
              else Next))
   \<and> ((rl k = None \<or> (\<exists>b. rl k = Some b \<and> now > resetTime b))
        \<and> instants_of k reqs = now # ts
        \<and> (\<forall>t\<in>set ts. now \<le> t \<and> t \<le> now + 60000) \<longrightarrow>
        length (answers_to k reqs (snd (serve reqs rl))) = Suc (length ts)
        \<and> (\<forall>i\<le>length ts.
              answers_to k reqs (snd (serve reqs rl)) ! i =
                (if i < 100 then Next
                 else Too_many_requests (ceil_seconds (now + 60000 - (now # ts) ! i)))
              \<and> 1000 * (ceil_seconds (now + 60000 - (now # ts) ! i) - 1)
                  < now + 60000 - (now # ts) ! i
              \<and> now + 60000 - (now # ts) ! i
                  \<le> 1000 * ceil_seconds (now + 60000 - (now # ts) ! i)
              \<and> 0 \<le> ceil_seconds (now + 60000 - (now # ts) ! i)
              \<and> ceil_seconds (now + 60000 - (now # ts) ! i) \<le> 60)
        \<and> (100 \<le> length ts \<longrightarrow>
              answers_to k reqs (snd (serve reqs rl)) ! 99 = Next
              \<and> answers_to k reqs (snd (serve reqs rl)) ! 100 =
                  Too_many_requests (ceil_seconds (now + 60000 - ts ! 99))))"
proof (intro conjI impI)
  assume "rl k = None \<or> (\<exists>b. rl k = Some b \<and> now > resetTime b)"
  then show "fst (rate_limit_mw now k rl) k = Some \<lparr>count = 1, resetTime = now + 60000\<rparr>"
    by (simp add: rate_limit_mw_bucket touch_fresh)
next
  assume "rl0 k = Some b0 \<and> \<not> now0 > resetTime b0"
  then show "fst (rate_limit_mw now0 k rl0) k = Some (b0\<lparr>count := count b0 + 1\<rparr>)"
    by (simp add: rate_limit_mw_bucket touch_in_window)
next
  assume "k' \<noteq> k"
  then show "fst (rate_limit_mw now k rl) k' = rl k'"
    by (simp add: rate_limit_mw_bucket)
next
  have "fst (rate_limit_mw now k rl) k = Some (touch_bucket now (rl k))
      \<and> snd (rate_limit_mw now k rl) =
             (if count (touch_bucket now (rl k)) > 100
              then Too_many_requests (ceil_seconds (resetTime (touch_bucket now (rl k)) - now))
              else Next)"
    by (simp add: rate_limit_mw_bucket rate_limit_mw_decision Let_def)
  then show "\<exists>b. fst (rate_limit_mw now k rl) k = Some b
         \<and> snd (rate_limit_mw now k rl) =
             (if count b > 100 then Too_many_requests (ceil_seconds (resetTime b - now))
              else Next)"
    by blast
next
  assume h: "(rl k = None \<or> (\<exists>b. rl k = Some b \<and> now > resetTime b))
        \<and> instants_of k reqs = now # ts
        \<and> (\<forall>t\<in>set ts. now \<le> t \<and> t \<le> now + 60000)"
  then have fresh: "rl k = None \<or> (\<exists>b. rl k = Some b \<and> now > resetTime b)"
    and inst: "instants_of k reqs = now # ts"
    and win: "\<forall>t\<in>set ts. t \<le> now + 60000"
    and after: "\<forall>t\<in>set ts. now \<le> t"
    by auto
  let ?ans = "answers_to k reqs (snd (serve reqs rl))"
  show "length ?ans = Suc (length ts)"
    by (simp add: length_answers_to inst)
  have ans: "?ans ! i = (if i < 100 then Next
      else Too_many_requests (ceil_seconds (now + 60000 - (now # ts) ! i)))"
    if "i \<le> length ts" for i
    using fresh inst win that by (rule answers_from_window_start)
  have rem: "0 \<le> now + 60000 - (now # ts) ! i \<and> now + 60000 - (now # ts) ! i \<le> 60000"
    if "i \<le> length ts" for i
  proof (cases i)
    case 0
    then show ?thesis by simp
  next
    case (Suc j)
    then have "ts ! j \<in> set ts" using that by simp
    then show ?thesis using win after Suc by auto
  qed
  show "\<forall>i\<le>length ts.
              ?ans ! i =
                (if i < 100 then Next
                 else Too_many_requests (ceil_seconds (now + 60000 - (now # ts) ! i)))
              \<and> 1000 * (ceil_seconds (now + 60000 - (now # ts) ! i) - 1)
                  < now + 60000 - (now # ts) ! i
              \<and> now + 60000 - (now # ts) ! i
                  \<le> 1000 * ceil_seconds (now + 60000 - (now # ts) ! i)
              \<and> 0 \<le> ceil_seconds (now + 60000 - (now # ts) ! i)
              \<and> ceil_seconds (now + 60000 - (now # ts) ! i) \<le> 60"
  proof (intro allI impI)
    fix i
    assume i: "i \<le> length ts"
    from rem [OF i] have r0: "0 \<le> now + 60000 - (now # ts) ! i"
      and r1: "now + 60000 - (now # ts) ! i \<le> 60000"
      by simp_all
    show "?ans ! i =
                (if i < 100 then Next
                 else Too_many_requests (ceil_seconds (now + 60000 - (now # ts) ! i)))
              \<and> 1000 * (ceil_seconds (now + 60000 - (now # ts) ! i) - 1)
                  < now + 60000 - (now # ts) ! i
              \<and> now + 60000 - (now # ts) ! i
                  \<le> 1000 * ceil_seconds (now + 60000 - (now # ts) ! i)
              \<and> 0 \<le> ceil_seconds (now + 60000 - (now # ts) ! i)
              \<and> ceil_seconds (now + 60000 - (now # ts) ! i) \<le> 60"
      using ans [OF i] ceil_seconds_least [of "now + 60000 - (now # ts) ! i"]
        ceil_seconds_bounds [OF r0 r1]
      by simp
  qed
  {
    assume len: "100 \<le> length ts"
    then have "?ans ! 99 = Next"
      using ans [of 99] by simp
    then show "?ans ! 99 = Next" .
    have "(100::nat) = Suc 99" by simp
    then have "(now # ts) ! 100 = ts ! 99" by (simp only: nth_Cons_Suc)
    then show "?ans ! 100 = Too_many_requests (ceil_seconds (now + 60000 - ts ! 99))"
      using ans [of 100] len by simp
  }
qed

theorem rate_limit_fixed_window_witness:
  "Map.empty ''10.0.0.1'' = (None :: bucket option)
   \<and> instants_of ''10.0.0.1''
        ((0, ''10.0.0.1'') # (700, ''10.0.0.2'') # replicate 100 (1500, ''10.0.0.1''))
       = 0 # replicate 100 1500
   \<and> set (replicate 100 (1500::int)) \<subseteq> {0..0 + 60000}
   \<and> [''10.0.0.1'' \<mapsto> \<lparr>count = 5, resetTime = 100\<rparr>] ''10.0.0.1'' = Some \<lparr>count = 5, resetTime = 100\<rparr>
   \<and> \<not> (50::int) > resetTime \<lparr>count = 5, resetTime = 100\<rparr>
   \<and> ''10.0.0.2'' \<noteq> ''10.0.0.1''
   \<and> fst (rate_limit_mw 0 ''10.0.0.1'' Map.empty) ''10.0.0.1'' = Some \<lparr>count = 1, resetTime = 60000\<rparr>
   \<and> fst (rate_limit_mw 0 ''10.0.0.1'' Map.empty) ''10.0.0.2'' = None
   \<and> fst (rate_limit_mw 50 ''10.0.0.1'' [''10.0.0.1'' \<mapsto> \<lparr>count = 5, resetTime = 100\<rparr>]) ''10.0.0.1''
        = Some \<lparr>count = 6, resetTime = 100\<rparr>
   \<and> answers_to ''10.0.0.1''
        ((0, ''10.0.0.1'') # (700, ''10.0.0.2'') # replicate 100 (1500, ''10.0.0.1''))
        (snd (serve ((0, ''10.0.0.1'') # (700, ''10.0.0.2'') # replicate 100 (1500, ''10.0.0.1''))
               Map.empty)) ! 99 = Next
   \<and> answers_to ''10.0.0.1''
        ((0, ''10.0.0.1'') # (700, ''10.0.0.2'') # replicate 100 (1500, ''10.0.0.1''))
        (snd (serve ((0, ''10.0.0.1'') # (700, ''10.0.0.2'') # replicate 100 (1500, ''10.0.0.1''))
               Map.empty)) ! 100 = Too_many_requests 59"
proof -
  have inst: "instants_of ''10.0.0.1''
        ((0, ''10.0.0.1'') # (700, ''10.0.0.2'') # replicate 100 (1500, ''10.0.0.1''))
       = 0 # replicate 100 1500"
    by (simp add: instants_of_def)
  have win: "\<forall>t\<in>set (replicate 100 (1500::int)). 0 \<le> t \<and> t \<le> 0 + 60000"
    by simp
  show ?thesis
    using rate_limit_fixed_window [of Map.empty "''10.0.0.1''" 0
      "[''10.0.0.1'' \<mapsto> \<lparr>count = 5, resetTime = 100\<rparr>]" "\<lparr>count = 5, resetTime = 100\<rparr>" 50
      "''10.0.0.2''"
      "(0, ''10.0.0.1'') # (700, ''10.0.0.2'') # replicate 100 (1500, ''10.0.0.1'')"
      "replicate 100 1500"] inst win
    by (simp add: ceil_seconds_def)
qed

section \<open>The gateway's layers and the rate limiter\<close>

lemma path_is_not_api:
  "starts_with (''/api/'' @ rest) p \<Longrightarrow> \<not> path_is ''/health'' p \<and> \<not> path_is ''/metrics'' p"
  by (auto simp: starts_with_def path_is_def)

lemma proxied_route_keeps_rateLimit:
  assumes "starts_with ''/api/users'' (req_path req) \<or> starts_with ''/api/auth'' (req_path req)
         \<or> starts_with ''/api/products'' (req_path req) \<or> starts_with ''/api/orders'' (req_path req)"
  shows "rateLimit (fst (gateway_request axios jwt_verify now req gw)) = rateLimit gw"
proof -
  have no: "\<not> path_is ''/health'' (req_path req)" "\<not> path_is ''/metrics'' (req_path req)"
    using assms path_is_not_api [of "''users''" "req_path req"]
      path_is_not_api [of "''auth''" "req_path req"]
      path_is_not_api [of "''products''" "req_path req"]
      path_is_not_api [of "''orders''" "req_path req"]
    by auto
  show ?thesis
    using assms no
    by (auto simp: gateway_request_def app_layers_def proxyRequest_def
        split: prod.splits sum.splits option.splits upstream.splits)
qed

lemma users_route_forwards:
  assumes "starts_with ''/api/users'' (req_path req)"
  shows "fst (gateway_request axios jwt_verify now req gw) =
     gw\<lparr>forwarded := forwarded gw @
        [(User_service, req_method req, ''/users'' @ remove_first ''/api/users'' (req_path req))]\<rparr>"
proof -
  have "\<not> path_is ''/health'' (req_path req)" "\<not> path_is ''/metrics'' (req_path req)"
    using assms path_is_not_api [of "''users''" "req_path req"] by auto
  then show ?thesis
    using assms by (simp add: gateway_request_def app_layers_def proxyRequest_def)
qed

text \<open>
  C1. The claim is that on the proxied routes the rate limiter's check runs before the
  request is dispatched, so that a request the limiter denies is never forwarded. In the
  gateway the limiter is registered after the four proxied routes, whose handlers answer
  without calling \<open>next()\<close>. At a moment when the client's bucket holds 100 requests of
  the current window, the limiter itself answers the next request with 429, but
  \<open>GET /api/users/42\<close> is forwarded to the user service and the bucket is not touched.
\<close>

theorem gateway_forwards_without_rate_limit:
  "snd (rate_limit_mw 1000 ''10.0.0.1'' [''10.0.0.1'' \<mapsto> \<lparr>count = 100, resetTime = 60000\<rparr>])
     = Too_many_requests 59
   \<and> gateway_request (\<lambda>_ _ _ _ _. Reply 200 ''[]'') (\<lambda>_. None) 1000
       \<lparr>req_method = ''GET'', req_path = ''/api/users/42'', req_ip = ''10.0.0.1'',
        req_authorization = None, req_body = ''''\<rparr>
       \<lparr>rateLimit = [''10.0.0.1'' \<mapsto> \<lparr>count = 100, resetTime = 60000\<rparr>], forwarded = []\<rparr>
     = (\<lparr>rateLimit = [''10.0.0.1'' \<mapsto> \<lparr>count = 100, resetTime = 60000\<rparr>],
         forwarded = [(User_service, ''GET'', ''/users/42'')]\<rparr>,
        Some (Gw_response 200 (Relayed ''[]'')))"
  by (simp add: rate_limit_mw_def touch_bucket_def RATE_LIMIT_MAX_REQUESTS_def ceil_seconds_def
      gateway_request_def app_layers_def path_is_def starts_with_def lower_char_def
      proxyRequest_def)

section \<open>Lemmas about \<open>POST /orders\<close>\<close>

subsection \<open>The validation loop\<close>

lemma validate_items_fail:
  "\<forall>it\<in>set ok. fetch (productId it) \<noteq> None \<Longrightarrow> fetch (productId bad) = None \<Longrightarrow>
   validate_items js_mul js_add fetch (ok @ bad # rest) acc vs tr =
     (Inl (productId bad), tr @ map (\<lambda>it. Product_get (productId it)) (ok @ [bad]))"
  by (induction ok arbitrary: acc vs tr) auto

lemma validate_items_ok:
  "map (\<lambda>it. fetch (productId it)) items = map Some products \<Longrightarrow>
   validate_items js_mul js_add fetch items acc vs tr =
     (Inr (foldl (\<lambda>totalAmount (it, p). js_add totalAmount (js_mul (price p) (quantity it)))
             acc (zip items products),
           vs @ map validated (zip items products)),
      tr @ map (\<lambda>it. Product_get (productId it)) items)"
proof (induction items arbitrary: products acc vs tr)
  case Nil
  then show ?case by simp
next
  case (Cons it items)
  then obtain p ps where ps: "products = p # ps"
    by (cases products) auto
  with Cons.prems have p: "fetch (productId it) = Some p"
    and rest: "map (\<lambda>it. fetch (productId it)) items = map Some ps"
    by simp_all
  show ?case
    using Cons.IH [OF rest] p ps by (simp add: validated_def)
qed

lemma validate_items_cases:
  "(\<exists>products. map (\<lambda>it. fetch (productId it)) items = map Some products)
   \<or> (\<exists>ok bad rest. items = ok @ bad # rest \<and> (\<forall>it\<in>set ok. fetch (productId it) \<noteq> None)
         \<and> fetch (productId bad) = None)"
proof (induction items)
  case Nil
  then show ?case by simp
next
  case (Cons it items)
  show ?case
  proof (cases "fetch (productId it)")
    case None
    then have "it # items = [] @ it # items \<and> (\<forall>x\<in>set []. fetch (productId x) \<noteq> None)
        \<and> fetch (productId it) = None" by simp
    then show ?thesis by blast
  next
    case (Some p)
    from Cons.IH show ?thesis
    proof
      assume "\<exists>products. map (\<lambda>it. fetch (productId it)) items = map Some products"
      then obtain ps where "map (\<lambda>it. fetch (productId it)) items = map Some ps" by blast
      then have "map (\<lambda>it. fetch (productId it)) (it # items) = map Some (p # ps)"
        using Some by simp
      then show ?thesis by blast
    next
      assume "\<exists>ok bad rest. items = ok @ bad # rest \<and> (\<forall>it\<in>set ok. fetch (productId it) \<noteq> None)
         \<and> fetch (productId bad) = None"
      then obtain ok bad rest where "items = ok @ bad # rest"
        "\<forall>it\<in>set ok. fetch (productId it) \<noteq> None" "fetch (productId bad) = None" by blast
      then have "it # items = (it # ok) @ bad # rest \<and> (\<forall>x\<in>set (it # ok). fetch (productId x) \<noteq> None)
         \<and> fetch (productId bad) = None"
        using Some by simp
      then show ?thesis by blast
    qed
  qed
qed

subsection \<open>Traces and the insert loop\<close>

lemma lookups_append: "lookups (xs @ ys) = lookups xs @ lookups ys"
  by (induction xs rule: lookups.induct) simp_all

lemma closings_append: "closings (xs @ ys) = closings xs @ closings ys"
  by (induction xs rule: closings.induct) simp_all

lemma lookups_gets: "lookups (map (\<lambda>it. Product_get (productId it)) items) = map productId items"
  by (induction items) simp_all

lemma closings_gets: "closings (map (\<lambda>it. Product_get (productId it)) items) = []"
  by (induction items) simp_all

lemma lookups_inserts: "lookups (map Insert_item ids) = []"
  by (induction ids) simp_all

lemma closings_inserts: "closings (map Insert_item ids) = []"
  by (induction ids) simp_all

lemma insert_order_items_trace:
  "insert_order_items now orderId vs db tr = (res, tr2) \<Longrightarrow> \<exists>ids. tr2 = tr @ map Insert_item ids"
proof (induction vs arbitrary: db tr)
  case Nil
  then have "tr2 = tr @ map Insert_item []" by simp
  then show ?case by blast
next
  case (Cons v vs)
  show ?case
  proof (cases "insert_order_item now orderId v db")
    case None
    then have "tr2 = tr @ map Insert_item [v_productId v]" using Cons.prems by simp
    then show ?thesis by blast
  next
    case (Some db')
    then have "insert_order_items now orderId vs db' (tr @ [Insert_item (v_productId v)]) = (res, tr2)"
      using Cons.prems by simp
    from Cons.IH [OF this] obtain ids where "tr2 = (tr @ [Insert_item (v_productId v)]) @ map Insert_item ids"
      by blast
    then have "tr2 = tr @ map Insert_item (v_productId v # ids)" by simp
    then show ?thesis by blast
  qed
qed

lemma insert_order_item_Some:
  assumes "insert_order_item now orderId v db = Some db'"
  shows "\<exists>row. order_items db' = order_items db @ [row] \<and> orders db' = orders db
           \<and> i_order_id row = orderId \<and> of_int (i_quantity row) = v_quantity v
           \<and> integer_in (v_quantity v) = Some (i_quantity row)
           \<and> decimal_10_2 (v_price v) = Some (i_price row)
           \<and> orders_id_seq db' = orders_id_seq db"
  using assms
  by (auto simp: insert_order_item_def integer_in_def split: option.splits if_splits)

lemma insert_order_items_rows:
  "insert_order_items now orderId vs db tr = (Inr db', tr2) \<Longrightarrow>
   orders db' = orders db \<and>
   (\<exists>rows. order_items db' = order_items db @ rows
      \<and> map (\<lambda>row. of_int (i_quantity row)) rows = map v_quantity vs
      \<and> map (\<lambda>row. Some (i_quantity row)) rows = map (\<lambda>v. integer_in (v_quantity v)) vs
      \<and> (\<forall>row\<in>set rows. i_order_id row = orderId))"
proof (induction vs arbitrary: db tr)
  case Nil
  then show ?case by simp
next
  case (Cons v vs)
  show ?case
  proof (cases "insert_order_item now orderId v db")
    case None
    then show ?thesis using Cons.prems by simp
  next
    case (Some db1)
    then have rec: "insert_order_items now orderId vs db1 (tr @ [Insert_item (v_productId v)]) = (Inr db', tr2)"
      using Cons.prems by simp
    from insert_order_item_Some [OF Some] obtain row where row:
      "order_items db1 = order_items db @ [row]" "orders db1 = orders db"
      "i_order_id row = orderId" "of_int (i_quantity row) = v_quantity v"
      "integer_in (v_quantity v) = Some (i_quantity row)"
      by blast
    from Cons.IH [OF rec] obtain rows where rows:
      "orders db' = orders db1" "order_items db' = order_items db1 @ rows"
      "map (\<lambda>row. of_int (i_quantity row)) rows = map v_quantity vs"
      "map (\<lambda>row. Some (i_quantity row)) rows = map (\<lambda>v. integer_in (v_quantity v)) vs"
      "\<forall>row\<in>set rows. i_order_id row = orderId"
      by blast
    have "order_items db' = order_items db @ (row # rows)
      \<and> map (\<lambda>row. of_int (i_quantity row)) (row # rows) = map v_quantity (v # vs)
      \<and> map (\<lambda>row. Some (i_quantity row)) (row # rows) = map (\<lambda>v. integer_in (v_quantity v)) (v # vs)
      \<and> (\<forall>r\<in>set (row # rows). i_order_id r = orderId)"
      using row rows by simp
    then show ?thesis using rows(1) row(2) by metis
  qed
qed

lemma insert_order_Some:
  assumes "insert_order now userId amount shippingAddress db = Some (db1, order)"
  shows "orders db1 = orders db @ [order] \<and> order_items db1 = order_items db
    \<and> total_amount_column amount = Some (o_total_amount order) \<and> o_status order = ''pending''
    \<and> o_user_id order = userId \<and> o_id order = orders_id_seq db"
  using assms by (auto simp: insert_order_def Let_def split: option.splits)

lemma insert_order_items_Inl:
  "insert_order_items now orderId vs db tr = (Inl db', tr2) \<Longrightarrow>
   \<exists>v\<in>set vs. varchar_255 (v_productId v) = None \<or> varchar_255 (v_productName v) = None
      \<or> integer_in (v_quantity v) = None \<or> decimal_10_2 (v_price v) = None"
proof (induction vs arbitrary: db tr)
  case Nil
  then show ?case by simp
next
  case (Cons v vs)
  show ?case
  proof (cases "insert_order_item now orderId v db")
    case None
    then have "varchar_255 (v_productId v) = None \<or> varchar_255 (v_productName v) = None
      \<or> integer_in (v_quantity v) = None \<or> decimal_10_2 (v_price v) = None"
      by (auto simp: insert_order_item_def split: option.splits)
    then show ?thesis by simp
  next
    case (Some db1)
    then have "insert_order_items now orderId vs db1 (tr @ [Insert_item (v_productId v)]) = (Inl db', tr2)"
      using Cons.prems by simp
    from Cons.IH [OF this] show ?thesis by auto
  qed
qed

text \<open>The handler on an item list whose products are all found.\<close>

lemma create_order_valid:
  assumes "items \<noteq> []" and "map (\<lambda>it. fetch (productId it)) items = map Some products"
  shows "create_order js_mul js_add fetch now userId (Some items) shippingAddress db =
     (case insert_order now userId (js_total js_mul js_add (zip items products))
             shippingAddress db of
        None \<Rightarrow>
          (rollback db db, Response 500 (Error ''Internal server error''),
           [Connect, Query_begin] @ map (\<lambda>it. Product_get (productId it)) items
             @ [Insert_order, Query_rollback, Release])
      | Some (db1, order) \<Rightarrow>
          (case insert_order_items now (o_id order) (map validated (zip items products)) db1
                  ([Connect, Query_begin] @ map (\<lambda>it. Product_get (productId it)) items
                     @ [Insert_order]) of
             (Inl db2, tr2) \<Rightarrow>
               (rollback db db2, Response 500 (Error ''Internal server error''),
                tr2 @ [Query_rollback, Release])
           | (Inr db2, tr2) \<Rightarrow>
               (db2, Response 201 (Order_created (getOrderById db2 (o_id order) None)),
                tr2 @ [Query_commit, Release])))"
proof -
  obtain i rest where items: "items = i # rest"
    using assms(1) by (cases items) auto
  have v: "validate_items js_mul js_add fetch (i # rest) (Finite 0) [] [Connect, Query_begin] =
      (Inr (js_total js_mul js_add (zip (i # rest) products),
            map validated (zip (i # rest) products)),
       [Connect, Query_begin] @ map (\<lambda>it. Product_get (productId it)) (i # rest))"
    using validate_items_ok [OF assms(2), of js_mul js_add "Finite 0" "[]" "[Connect, Query_begin]"]
      items
    by (simp add: js_total_def)
  show ?thesis
    unfolding items create_order_def
    by (simp only: v option.case list.case prod.case sum.case append_assoc)
qed

text \<open>The handler on an item list with a product that is not found.\<close>

lemma create_order_invalid:
  assumes "\<forall>it\<in>set ok. fetch (productId it) \<noteq> None" and "fetch (productId bad) = None"
  shows "create_order js_mul js_add fetch now userId (Some (ok @ bad # rest)) shippingAddress db =
           (db, Response 400 (Error (''Invalid product: '' @ productId bad)),
            [Connect, Query_begin] @ map (\<lambda>it. Product_get (productId it)) (ok @ [bad]) @ [Release])"
proof -
  obtain i rest' where items: "ok @ bad # rest = i # rest'"
    by (cases "ok @ bad # rest") auto
  have "validate_items js_mul js_add fetch (i # rest') (Finite 0) [] [Connect, Query_begin] =
      (Inl (productId bad), [Connect, Query_begin] @ map (\<lambda>it. Product_get (productId it)) (ok @ [bad]))"
    using validate_items_fail [OF assms, of js_mul js_add rest "Finite 0" "[]" "[Connect, Query_begin]"]
      items
    by simp
  then show ?thesis
    unfolding items create_order_def by simp
qed

subsection \<open>Column types\<close>

lemma integer_in_Some:
  assumes "integer_in q = Some n"
  shows "q = of_int n \<and> - 2147483648 \<le> n \<and> n \<le> 2147483647"
proof (cases "q = of_int \<lfloor>q\<rfloor> \<and> - 2147483648 \<le> \<lfloor>q\<rfloor> \<and> \<lfloor>q\<rfloor> \<le> 2147483647")
  case True
  then have "integer_in q = Some \<lfloor>q\<rfloor>"
    unfolding integer_in_def by (rule if_P)
  then have "n = \<lfloor>q\<rfloor>" using assms by simp
  then show ?thesis using True by blast
next
  case False
  then have "integer_in q = None"
    unfolding integer_in_def by (rule if_not_P)
  then show ?thesis using assms by simp
qed





subsection \<open>Statements that leave \<open>total_amount\<close> alone\<close>




text \<open>What a 201 response of the handler tells about the run.\<close>

lemma create_order_created:
  assumes "create_order js_mul js_add fetch now userId (Some items) shippingAddress db = (db', Response 201 b, tr)"
  obtains products order db1 tr2 where
    "length products = length items"
    "map (\<lambda>it. fetch (productId it)) items = map Some products"
    "insert_order now userId (js_total js_mul js_add (zip items products)) shippingAddress db
       = Some (db1, order)"
    "insert_order_items now (o_id order) (map validated (zip items products)) db1
       ([Connect, Query_begin] @ map (\<lambda>it. Product_get (productId it)) items @ [Insert_order])
       = (Inr db', tr2)"
    "tr = tr2 @ [Query_commit, Release]"
proof -
  have ne: "items \<noteq> []"
    using assms by (auto simp: create_order_def)
  from validate_items_cases [of fetch items] show ?thesis
  proof
    assume "\<exists>ok bad rest. items = ok @ bad # rest \<and> (\<forall>it\<in>set ok. fetch (productId it) \<noteq> None)
         \<and> fetch (productId bad) = None"
    then obtain ok bad rest where d: "items = ok @ bad # rest"
      "\<forall>it\<in>set ok. fetch (productId it) \<noteq> None" "fetch (productId bad) = None" by blast
    have "fst (snd (create_order js_mul js_add fetch now userId (Some items) shippingAddress db)) =
        Response 400 (Error (''Invalid product: '' @ productId bad))"
      unfolding d(1) by (simp add: create_order_invalid [OF d(2,3)])
    then show ?thesis using assms by simp
  next
    assume "\<exists>products. map (\<lambda>it. fetch (productId it)) items = map Some products"
    then obtain products where ps: "map (\<lambda>it. fetch (productId it)) items = map Some products"
      by blast
    have len: "length products = length items"
      using arg_cong [OF ps, of length] by simp
    note eq = create_order_valid [OF ne ps,
      where js_mul = js_mul and js_add = js_add and now = now and userId = userId and shippingAddress = shippingAddress and db = db]
    show ?thesis
    proof (cases "insert_order now userId (js_total js_mul js_add (zip items products)) shippingAddress db")
      case None
      then show ?thesis using eq assms by simp
    next
      case (Some pair)
      obtain db1 order where pair: "pair = (db1, order)" by (cases pair)
      obtain res tr2 where ii: "insert_order_items now (o_id order) (map validated (zip items products)) db1
           ([Connect, Query_begin] @ map (\<lambda>it. Product_get (productId it)) items @ [Insert_order]) = (res, tr2)"
        by (cases "insert_order_items now (o_id order) (map validated (zip items products)) db1
           ([Connect, Query_begin] @ map (\<lambda>it. Product_get (productId it)) items @ [Insert_order])")
      show ?thesis
      proof (cases res)
        case (Inl db2)
        then show ?thesis using eq assms Some pair ii by simp
      next
        case (Inr db2)
        then have "db' = db2" "tr = tr2 @ [Query_commit, Release]"
          using eq assms Some pair ii by simp_all
        then show ?thesis using that [OF len ps] Some pair ii Inr by simp
      qed
    qed
  qed
qed

text \<open>Unless the handler answers 201, the rows of both tables are what they were.\<close>

lemma create_order_rows_kept:
  assumes "status_code (fst (snd (create_order js_mul js_add fetch now userId items shippingAddress db))) \<noteq> 201"
  shows "orders (fst (create_order js_mul js_add fetch now userId items shippingAddress db)) = orders db
       \<and> order_items (fst (create_order js_mul js_add fetch now userId items shippingAddress db)) = order_items db"
proof (cases items)
  case None
  then show ?thesis by (simp add: create_order_def)
next
  case (Some its)
  show ?thesis
  proof (cases "its = []")
    case True
    then show ?thesis using Some by (simp add: create_order_def)
  next
    case ne: False
    from validate_items_cases [of fetch its] show ?thesis
    proof
      assume "\<exists>ok bad rest. its = ok @ bad # rest \<and> (\<forall>it\<in>set ok. fetch (productId it) \<noteq> None)
           \<and> fetch (productId bad) = None"
      then obtain ok bad rest where d: "its = ok @ bad # rest"
        "\<forall>it\<in>set ok. fetch (productId it) \<noteq> None" "fetch (productId bad) = None" by blast
      show ?thesis
        unfolding Some d(1) by (simp add: create_order_invalid [OF d(2,3)])
    next
      assume "\<exists>products. map (\<lambda>it. fetch (productId it)) its = map Some products"
      then obtain products where ps: "map (\<lambda>it. fetch (productId it)) its = map Some products"
        by blast
      note eq = create_order_valid [OF ne ps,
      where js_mul = js_mul and js_add = js_add and now = now and userId = userId and shippingAddress = shippingAddress and db = db]
      show ?thesis
      proof (cases "insert_order now userId (js_total js_mul js_add (zip its products)) shippingAddress db")
        case None
        then show ?thesis using eq Some by (simp add: rollback_def)
      next
        case io: (Some pair)
        obtain db1 order where pair: "pair = (db1, order)" by (cases pair)
        obtain res tr2 where ii: "insert_order_items now (o_id order) (map validated (zip its products)) db1
             ([Connect, Query_begin] @ map (\<lambda>it. Product_get (productId it)) its @ [Insert_order]) = (res, tr2)"
          by (cases "insert_order_items now (o_id order) (map validated (zip its products)) db1
             ([Connect, Query_begin] @ map (\<lambda>it. Product_get (productId it)) its @ [Insert_order])")
        show ?thesis
        proof (cases res)
          case (Inl db2)
          then show ?thesis using eq Some io pair ii by (simp add: rollback_def)
        next
          case (Inr db2)
          then have "status_code (fst (snd (create_order js_mul js_add fetch now userId items shippingAddress db))) = 201"
            using eq Some io pair ii by simp
          then show ?thesis using assms by simp
        qed
      qed
    qed
  qed
qed

text \<open>The rows a 201 response leaves behind.\<close>

lemma create_order_created_rows:
  assumes "create_order js_mul js_add fetch now userId (Some items) shippingAddress db = (db', Response 201 b, tr)"
  obtains products order rows where
    "length products = length items"
    "map (\<lambda>it. fetch (productId it)) items = map Some products"
    "orders db' = orders db @ [order]"
    "total_amount_column (js_total js_mul js_add (zip items products)) = Some (o_total_amount order)"
    "o_status order = ''pending''" "o_user_id order = userId"
    "order_items db' = order_items db @ rows"
    "map (\<lambda>row. of_int (i_quantity row)) rows = map quantity items"
    "map (\<lambda>row. Some (i_quantity row)) rows = map (\<lambda>it. integer_in (quantity it)) items"
    "\<forall>row\<in>set rows. i_order_id row = o_id order"
proof -
  from create_order_created [OF assms] obtain products order db1 tr2 where c:
    "length products = length items"
    "map (\<lambda>it. fetch (productId it)) items = map Some products"
    "insert_order now userId (js_total js_mul js_add (zip items products)) shippingAddress db
       = Some (db1, order)"
    "insert_order_items now (o_id order) (map validated (zip items products)) db1
       ([Connect, Query_begin] @ map (\<lambda>it. Product_get (productId it)) items @ [Insert_order])
       = (Inr db', tr2)"
    by metis
  note io = insert_order_Some [OF c(3)]
  from insert_order_items_rows [OF c(4)] obtain rows where r:
    "orders db' = orders db1" "order_items db' = order_items db1 @ rows"
    "map (\<lambda>row. of_int (i_quantity row)) rows = map v_quantity (map validated (zip items products))"
    "map (\<lambda>row. Some (i_quantity row)) rows =
       map (\<lambda>v. integer_in (v_quantity v)) (map validated (zip items products))"
    "\<forall>row\<in>set rows. i_order_id row = o_id order"
    by blast
  have q: "map v_quantity (map validated (zip items products)) = map quantity items"
    using c(1) by (induction items products rule: list_induct2') (simp_all add: validated_def)
  have q': "map (\<lambda>v. integer_in (v_quantity v)) (map validated (zip items products))
      = map (\<lambda>it. integer_in (quantity it)) items"
    using c(1) by (induction items products rule: list_induct2') (simp_all add: validated_def)
  show ?thesis
    using that [OF c(1) c(2), of order rows] io r q q' by simp
qed

text \<open>The trace of the handler when every product is found.\<close>

lemma create_order_valid_trace:
  assumes "items \<noteq> []" and "map (\<lambda>it. fetch (productId it)) items = map Some products"
  shows "\<exists>ids e.
      (e = Query_commit
         \<and> status_code (fst (snd (create_order js_mul js_add fetch now userId (Some items) shippingAddress db))) = 201
       \<or> e = Query_rollback
         \<and> status_code (fst (snd (create_order js_mul js_add fetch now userId (Some items) shippingAddress db))) = 500)
      \<and> snd (snd (create_order js_mul js_add fetch now userId (Some items) shippingAddress db)) =
           Connect # Query_begin # map (\<lambda>it. Product_get (productId it)) items
             @ Insert_order # map Insert_item ids @ [e, Release]"
proof -
  note eq = create_order_valid [OF assms,
      where js_mul = js_mul and js_add = js_add and now = now and userId = userId and shippingAddress = shippingAddress and db = db]
  let ?gets = "[Connect, Query_begin] @ map (\<lambda>it. Product_get (productId it)) items"
  let ?code = "status_code (fst (snd (create_order js_mul js_add fetch now userId (Some items) shippingAddress db)))"
  let ?tr = "snd (snd (create_order js_mul js_add fetch now userId (Some items) shippingAddress db))"
  show ?thesis
  proof (cases "insert_order now userId (js_total js_mul js_add (zip items products)) shippingAddress db")
    case None
    then have "?code = 500"
      and "?tr = Connect # Query_begin # map (\<lambda>it. Product_get (productId it)) items
             @ Insert_order # map Insert_item [] @ [Query_rollback, Release]"
      using eq by simp_all
    then show ?thesis by blast
  next
    case (Some pair)
    obtain db1 order where pair: "pair = (db1, order)" by (cases pair)
    obtain res tr2 where ii: "insert_order_items now (o_id order) (map validated (zip items products)) db1
         (?gets @ [Insert_order]) = (res, tr2)"
      by (cases "insert_order_items now (o_id order) (map validated (zip items products)) db1
         (?gets @ [Insert_order])")
    from insert_order_items_trace [OF ii] obtain ids where
      tr2: "tr2 = (?gets @ [Insert_order]) @ map Insert_item ids"
      by blast
    show ?thesis
    proof (cases res)
      case (Inl db2)
      then have "?code = 500"
        and "?tr = Connect # Query_begin # map (\<lambda>it. Product_get (productId it)) items
             @ Insert_order # map Insert_item ids @ [Query_rollback, Release]"
        using eq Some pair ii tr2 by simp_all
      then show ?thesis by blast
    next
      case (Inr db2)
      then have "?code = 201"
        and "?tr = Connect # Query_begin # map (\<lambda>it. Product_get (productId it)) items
             @ Insert_order # map Insert_item ids @ [Query_commit, Release]"
        using eq Some pair ii tr2 by simp_all
      then show ?thesis by blast
    qed
  qed
qed


subsection \<open>Evaluation on concrete requests\<close>

lemma floor_rat_numeral: "\<lfloor>numeral a / numeral b :: rat\<rfloor> = numeral a div numeral b"
  using floor_divide_of_int_eq [of "numeral a" "numeral b", where ?'a = rat] by simp

lemma floor_rat_neg_numeral: "\<lfloor>- (numeral a / numeral b) :: rat\<rfloor> = - numeral a div numeral b"
  using floor_divide_of_int_eq [of "- numeral a" "numeral b", where ?'a = rat] by simp

lemma floor_rat_one_div: "\<lfloor>1 / numeral b :: rat\<rfloor> = 1 div numeral b"
  using floor_divide_of_int_eq [of 1 "numeral b", where ?'a = rat] by simp

lemma floor_rat_minus_one: "\<lfloor>- 1 :: rat\<rfloor> = - 1"
  using floor_of_int [of "- 1", where ?'a = rat] by simp

lemmas eval_defs = create_order_def insert_order_def insert_order_item_def decimal_10_2_def
  total_amount_column_def exact_mul_def
  round_half_away_def integer_in_def varchar_255_def getOrderById_def rollback_def Let_def
  catalog_def empty_store_def floor_rat_numeral floor_rat_neg_numeral floor_rat_one_div floor_rat_minus_one

section \<open>Order creation: the claims\<close>

text \<open>
  C2. When the products of the items \<open>ok\<close> are found and the product of the next item
  \<open>bad\<close> is not, the handler answers 400 with \<open>Invalid product: \<close> and the id of \<open>bad\<close>,
  the database is what it was (no row in \<open>orders\<close> or \<open>order_items\<close>), and the products
  looked up are those of \<open>ok\<close> and then \<open>bad\<close>, in the order of the list: the items after
  \<open>bad\<close> are never looked up. For every item list that is not empty, the products looked
  up are those of the first items of the list, in the order of the list.
\<close>

theorem create_order_first_failure_aborts:
  "((\<forall>it\<in>set ok. fetch (productId it) \<noteq> None) \<and> fetch (productId bad) = None \<longrightarrow>
      create_order js_mul js_add fetch now userId (Some (ok @ bad # rest)) shippingAddress db =
        (db, Response 400 (Error (''Invalid product: '' @ productId bad)),
         [Connect, Query_begin] @ map (\<lambda>it. Product_get (productId it)) (ok @ [bad]) @ [Release])
      \<and> lookups (snd (snd (create_order js_mul js_add fetch now userId (Some (ok @ bad # rest)) shippingAddress db)))
          = map productId (ok @ [bad]))
   \<and> (items \<noteq> [] \<longrightarrow>
        (\<exists>n. lookups (snd (snd (create_order js_mul js_add fetch now userId (Some items) shippingAddress db)))
               = map productId (take n items)))"
proof (intro conjI impI)
  assume h: "(\<forall>it\<in>set ok. fetch (productId it) \<noteq> None) \<and> fetch (productId bad) = None"
  then have inv: "create_order js_mul js_add fetch now userId (Some (ok @ bad # rest)) shippingAddress db =
        (db, Response 400 (Error (''Invalid product: '' @ productId bad)),
         [Connect, Query_begin] @ map (\<lambda>it. Product_get (productId it)) (ok @ [bad]) @ [Release])"
    using create_order_invalid [where ok = ok and bad = bad and rest = rest and fetch = fetch
        and js_mul = js_mul and js_add = js_add and now = now and userId = userId
        and shippingAddress = shippingAddress and db = db] by blast
  then show "create_order js_mul js_add fetch now userId (Some (ok @ bad # rest)) shippingAddress db =
        (db, Response 400 (Error (''Invalid product: '' @ productId bad)),
         [Connect, Query_begin] @ map (\<lambda>it. Product_get (productId it)) (ok @ [bad]) @ [Release])" .
  show "lookups (snd (snd (create_order js_mul js_add fetch now userId (Some (ok @ bad # rest)) shippingAddress db)))
          = map productId (ok @ [bad])"
    unfolding inv using lookups_gets [of "ok @ [bad]"] by (simp add: lookups_append)
next
  assume ne: "items \<noteq> []"
  from validate_items_cases [of fetch items]
  show "\<exists>n. lookups (snd (snd (create_order js_mul js_add fetch now userId (Some items) shippingAddress db)))
               = map productId (take n items)"
  proof
    assume "\<exists>ok bad rest. items = ok @ bad # rest \<and> (\<forall>it\<in>set ok. fetch (productId it) \<noteq> None)
         \<and> fetch (productId bad) = None"
    then obtain ok bad rest where d: "items = ok @ bad # rest"
      "\<forall>it\<in>set ok. fetch (productId it) \<noteq> None" "fetch (productId bad) = None" by blast
    have "lookups (snd (snd (create_order js_mul js_add fetch now userId (Some items) shippingAddress db)))
        = map productId (ok @ [bad])"
      unfolding d(1) create_order_invalid [OF d(2,3)]
      using lookups_gets [of "ok @ [bad]"] by (simp add: lookups_append)
    moreover have "take (Suc (length ok)) items = ok @ [bad]"
      using d(1) by simp
    ultimately show ?thesis by metis
  next
    assume "\<exists>products. map (\<lambda>it. fetch (productId it)) items = map Some products"
    then obtain products where ps: "map (\<lambda>it. fetch (productId it)) items = map Some products"
      by blast
    from create_order_valid_trace [OF ne ps,
      where js_mul = js_mul and js_add = js_add and now = now and userId = userId and shippingAddress = shippingAddress and db = db]
    obtain ids e where
      "snd (snd (create_order js_mul js_add fetch now userId (Some items) shippingAddress db)) =
           Connect # Query_begin # map (\<lambda>it. Product_get (productId it)) items
             @ Insert_order # map Insert_item ids @ [e, Release]"
      and "e = Query_commit \<or> e = Query_rollback"
      by blast
    then have "lookups (snd (snd (create_order js_mul js_add fetch now userId (Some items) shippingAddress db)))
        = map productId items"
      using lookups_gets [of items] lookups_inserts [of ids]
      by (auto simp: lookups_append)
    then have "lookups (snd (snd (create_order js_mul js_add fetch now userId (Some items) shippingAddress db)))
        = map productId (take (length items) items)"
      by simp
    then show ?thesis by blast
  qed
qed

theorem create_order_first_failure_aborts_witness:
  "catalog (productId \<lparr>productId = ''p1'', quantity = 2\<rparr>) = Some \<lparr>name = ''Widget'', price = 50\<rparr>
   \<and> catalog (productId \<lparr>productId = ''p9'', quantity = 1\<rparr>) = None
   \<and> create_order exact_mul exact_add catalog 7 3
        (Some [\<lparr>productId = ''p1'', quantity = 2\<rparr>, \<lparr>productId = ''p9'', quantity = 1\<rparr>,
               \<lparr>productId = ''p2'', quantity = 1\<rparr>]) ''{}'' empty_store =
        (empty_store, Response 400 (Error ''Invalid product: p9''),
         [Connect, Query_begin, Product_get ''p1'', Product_get ''p9'', Release])
   \<and> lookups (snd (snd (create_order exact_mul exact_add catalog 7 3
        (Some [\<lparr>productId = ''p1'', quantity = 2\<rparr>, \<lparr>productId = ''p9'', quantity = 1\<rparr>,
               \<lparr>productId = ''p2'', quantity = 1\<rparr>]) ''{}'' empty_store))) = [''p1'', ''p9'']"
  using create_order_first_failure_aborts [where ok = "[\<lparr>productId = ''p1'', quantity = 2\<rparr>]"
      and fetch = catalog and bad = "\<lparr>productId = ''p9'', quantity = 1\<rparr>"
      and js_mul = exact_mul and js_add = exact_add and now = 7 and userId = 3
      and rest = "[\<lparr>productId = ''p2'', quantity = 1\<rparr>]" and shippingAddress = "''{}''"
      and db = empty_store and items = "[\<lparr>productId = ''p1'', quantity = 2\<rparr>]"]
  by (simp add: catalog_def)





text \<open>
  C4. The claim is that the transaction is opened only after all items have validated,
  and that every way out of the operation closes it by a commit or a rollback before the
  connection is released. The handler issues \<open>BEGIN\<close> first, before any product is looked
  up, and the early \<open>return\<close> for a product that is not found releases the connection
  with the transaction still open.
\<close>

theorem create_order_begin_first_counterexample:
  "snd (snd (create_order exact_mul exact_add catalog 7 3 (Some [\<lparr>productId = ''p9'', quantity = 1\<rparr>]) ''{}''
       empty_store))
     = [Connect, Query_begin, Product_get ''p9'', Release]
   \<and> closings (snd (snd (create_order exact_mul exact_add catalog 7 3 (Some [\<lparr>productId = ''p9'', quantity = 1\<rparr>])
       ''{}'' empty_store))) = []"
  by (simp add: eval_defs)

text \<open>
  C4, as the code has it. Every run of the handler starts with \<open>pool.connect()\<close> and
  \<open>BEGIN\<close>, before any product is looked up, and ends with \<open>client.release()\<close>. When the
  item list is not empty and every product is found, the transaction is closed exactly
  once, immediately before the release: by \<open>COMMIT\<close> when the response is 201, and by
  \<open>ROLLBACK\<close> when an insert is rejected, in which case the response is 500 and the rows
  of both tables are what they were.
\<close>

theorem create_order_transaction:
  "(\<exists>mid. snd (snd (create_order js_mul js_add fetch now userId items0 shippingAddress db))
            = Connect # Query_begin # mid @ [Release])
   \<and> (items \<noteq> [] \<and> map (\<lambda>it. fetch (productId it)) items = map Some products \<longrightarrow>
        (\<exists>mid. snd (snd (create_order js_mul js_add fetch now userId (Some items)
                          shippingAddress db))
                 = Connect # Query_begin # mid @ [Query_commit, Release]
            \<and> closings (snd (snd (create_order js_mul js_add fetch now userId (Some items) shippingAddress db)))
                 = [Query_commit]
            \<and> status_code (fst (snd (create_order js_mul js_add fetch now userId (Some items) shippingAddress db)))
                 = 201)
      \<or> (\<exists>mid. snd (snd (create_order js_mul js_add fetch now userId (Some items) shippingAddress db))
                 = Connect # Query_begin # mid @ [Query_rollback, Release]
            \<and> closings (snd (snd (create_order js_mul js_add fetch now userId (Some items) shippingAddress db)))
                 = [Query_rollback]
            \<and> status_code (fst (snd (create_order js_mul js_add fetch now userId (Some items) shippingAddress db)))
                 = 500
            \<and> orders (fst (create_order js_mul js_add fetch now userId (Some items) shippingAddress db))
                 = orders db
            \<and> order_items (fst (create_order js_mul js_add fetch now userId (Some items) shippingAddress db))
                 = order_items db))"
proof (intro conjI impI)
  let ?tr0 = "snd (snd (create_order js_mul js_add fetch now userId items0 shippingAddress db))"
  show "\<exists>mid. ?tr0 = Connect # Query_begin # mid @ [Release]"
  proof (cases items0)
    case None
    then have "?tr0 = Connect # Query_begin # [] @ [Release]"
      by (simp add: create_order_def)
    then show ?thesis by blast
  next
    case (Some its)
    show ?thesis
    proof (cases "its = []")
      case True
      then have "?tr0 = Connect # Query_begin # [] @ [Release]"
        using Some by (simp add: create_order_def)
      then show ?thesis by blast
    next
      case ne: False
      from validate_items_cases [of fetch its] show ?thesis
      proof
        assume "\<exists>ok bad rest. its = ok @ bad # rest \<and> (\<forall>it\<in>set ok. fetch (productId it) \<noteq> None)
           \<and> fetch (productId bad) = None"
        then obtain ok bad rest where d: "its = ok @ bad # rest"
          "\<forall>it\<in>set ok. fetch (productId it) \<noteq> None" "fetch (productId bad) = None" by blast
        have "?tr0 = Connect # Query_begin # map (\<lambda>it. Product_get (productId it)) (ok @ [bad]) @ [Release]"
          unfolding Some d(1) create_order_invalid [OF d(2,3)] by simp
        then show ?thesis by blast
      next
        assume "\<exists>products. map (\<lambda>it. fetch (productId it)) its = map Some products"
        then obtain ps where ps: "map (\<lambda>it. fetch (productId it)) its = map Some ps"
          by blast
        from create_order_valid_trace [OF ne ps,
      where js_mul = js_mul and js_add = js_add and now = now and userId = userId and shippingAddress = shippingAddress and db = db]
        obtain ids e where "?tr0 = Connect # Query_begin #
            (map (\<lambda>it. Product_get (productId it)) its @ Insert_order # map Insert_item ids @ [e])
            @ [Release]"
          unfolding Some by auto
        then show ?thesis by blast
      qed
    qed
  qed
next
  let ?run = "create_order js_mul js_add fetch now userId (Some items) shippingAddress db"
  assume h: "items \<noteq> [] \<and> map (\<lambda>it. fetch (productId it)) items = map Some products"
  then have ne: "items \<noteq> []" and ps: "map (\<lambda>it. fetch (productId it)) items = map Some products"
    by simp_all
  from create_order_valid_trace [OF ne ps,
      where js_mul = js_mul and js_add = js_add and now = now and userId = userId and shippingAddress = shippingAddress and db = db]
  obtain ids e where
    e: "e = Query_commit \<and> status_code (fst (snd ?run)) = 201
        \<or> e = Query_rollback \<and> status_code (fst (snd ?run)) = 500"
    and tr: "snd (snd ?run) = Connect # Query_begin # map (\<lambda>it. Product_get (productId it)) items
             @ Insert_order # map Insert_item ids @ [e, Release]"
    by blast
  let ?mid = "map (\<lambda>it. Product_get (productId it)) items @ Insert_order # map Insert_item ids"
  have shape: "snd (snd ?run) = Connect # Query_begin # ?mid @ [e, Release]"
    using tr by simp
  have cl: "closings (snd (snd ?run)) = closings [e, Release]"
    unfolding tr using closings_gets [of items] closings_inserts [of ids]
    by (simp add: closings_append)
  from e show "(\<exists>mid. snd (snd ?run) = Connect # Query_begin # mid @ [Query_commit, Release]
            \<and> closings (snd (snd ?run)) = [Query_commit]
            \<and> status_code (fst (snd ?run)) = 201)
      \<or> (\<exists>mid. snd (snd ?run) = Connect # Query_begin # mid @ [Query_rollback, Release]
            \<and> closings (snd (snd ?run)) = [Query_rollback]
            \<and> status_code (fst (snd ?run)) = 500
            \<and> orders (fst ?run) = orders db
            \<and> order_items (fst ?run) = order_items db)"
  proof
    assume c: "e = Query_commit \<and> status_code (fst (snd ?run)) = 201"
    then have "snd (snd ?run) = Connect # Query_begin # ?mid @ [Query_commit, Release]
            \<and> closings (snd (snd ?run)) = [Query_commit]
            \<and> status_code (fst (snd ?run)) = 201"
      using shape cl by simp
    then show ?thesis by blast
  next
    assume r: "e = Query_rollback \<and> status_code (fst (snd ?run)) = 500"
    then have "status_code (fst (snd ?run)) \<noteq> 201" by simp
    from create_order_rows_kept [OF this]
    have "snd (snd ?run) = Connect # Query_begin # ?mid @ [Query_rollback, Release]
            \<and> closings (snd (snd ?run)) = [Query_rollback]
            \<and> status_code (fst (snd ?run)) = 500
            \<and> orders (fst ?run) = orders db
            \<and> order_items (fst ?run) = order_items db"
      using r shape cl by simp
    then show ?thesis by blast
  qed
qed

theorem create_order_transaction_witness:
  "[\<lparr>productId = ''p1'', quantity = 2\<rparr>] \<noteq> []
   \<and> map (\<lambda>it. catalog (productId it)) [\<lparr>productId = ''p1'', quantity = 2\<rparr>]
       = map Some [\<lparr>name = ''Widget'', price = 50\<rparr>]
   \<and> snd (snd (create_order exact_mul exact_add catalog 7 3 (Some [\<lparr>productId = ''p1'', quantity = 2\<rparr>]) ''{}''
        empty_store))
       = [Connect, Query_begin, Product_get ''p1'', Insert_order, Insert_item ''p1'',
          Query_commit, Release]
   \<and> closings (snd (snd (create_order exact_mul exact_add catalog 7 3 (Some [\<lparr>productId = ''p1'', quantity = 2\<rparr>])
        ''{}'' empty_store))) = [Query_commit]
   \<and> snd (snd (create_order exact_mul exact_add catalog 7 3 (Some [\<lparr>productId = ''p1'', quantity = 3 / 2\<rparr>]) ''{}''
        empty_store))
       = [Connect, Query_begin, Product_get ''p1'', Insert_order, Insert_item ''p1'',
          Query_rollback, Release]"
  using create_order_transaction [of exact_mul exact_add catalog 7 3
      "Some [\<lparr>productId = ''p1'', quantity = 3 / 2\<rparr>]" "''{}''" empty_store
      "[\<lparr>productId = ''p1'', quantity = 2\<rparr>]" "[\<lparr>name = ''Widget'', price = 50\<rparr>]"]
  by (simp add: eval_defs)

text \<open>
  C9. The claim is that every persisted item has a positive whole quantity. The handler
  does not look at the quantity, and the column is \<open>INTEGER NOT NULL\<close> without a check: an
  order for minus one unit of \<open>p1\<close> is created, with quantity \<open>-1\<close> in its item row.
\<close>

theorem create_order_quantity_counterexample:
  "status_code (fst (snd (create_order exact_mul exact_add catalog 7 3 (Some [\<lparr>productId = ''p1'', quantity = - 1\<rparr>])
       ''{}'' empty_store))) = 201
   \<and> map i_quantity (order_items (fst (create_order exact_mul exact_add catalog 7 3
       (Some [\<lparr>productId = ''p1'', quantity = - 1\<rparr>]) ''{}'' empty_store))) = [- 1]"
  by (simp add: eval_defs)

text \<open>
  C9, as the code has it. When the handler answers 201, one row was added to
  \<open>order_items\<close> for each item of the request, in the order of the request, with the
  requested quantity, and every requested quantity is a whole number in the range of the
  \<open>INTEGER\<close> column, of either sign or zero. A request with a quantity that is not a
  whole number is not answered 201, and leaves the rows of both tables as they were.
\<close>

theorem create_order_quantities:
  "(create_order js_mul js_add fetch now userId (Some items) shippingAddress db = (db', Response 201 b, tr) \<longrightarrow>
      (\<exists>rows. order_items db' = order_items db @ rows
         \<and> map (\<lambda>row. of_int (i_quantity row)) rows = map quantity items
         \<and> (\<forall>row\<in>set rows. - 2147483648 \<le> i_quantity row \<and> i_quantity row \<le> 2147483647)))
   \<and> ((\<exists>it\<in>set items2. quantity it \<noteq> of_int \<lfloor>quantity it\<rfloor>) \<longrightarrow>
        status_code (fst (snd (create_order js_mul js_add fetch now userId (Some items2) shippingAddress db))) \<noteq> 201
      \<and> orders (fst (create_order js_mul js_add fetch now userId (Some items2) shippingAddress db)) = orders db
      \<and> order_items (fst (create_order js_mul js_add fetch now userId (Some items2) shippingAddress db))
          = order_items db)"
proof (intro conjI impI)
  assume run: "create_order js_mul js_add fetch now userId (Some items) shippingAddress db = (db', Response 201 b, tr)"
  show "\<exists>rows. order_items db' = order_items db @ rows
         \<and> map (\<lambda>row. of_int (i_quantity row)) rows = map quantity items
         \<and> (\<forall>row\<in>set rows. - 2147483648 \<le> i_quantity row \<and> i_quantity row \<le> 2147483647)"
  proof (rule create_order_created_rows [OF run])
    fix rows
    assume r: "order_items db' = order_items db @ rows"
      "map (\<lambda>row. of_int (i_quantity row)) rows = map quantity items"
      "map (\<lambda>row. Some (i_quantity row)) rows = map (\<lambda>it. integer_in (quantity it)) items"
    have "- 2147483648 \<le> i_quantity row \<and> i_quantity row \<le> 2147483647" if "row \<in> set rows" for row
    proof -
      from that obtain k where k: "k < length rows" "rows ! k = row"
        by (auto simp: in_set_conv_nth)
      have len: "length rows = length items"
        using arg_cong [OF r(3), of length] by simp
      have "map (\<lambda>row. Some (i_quantity row)) rows ! k = map (\<lambda>it. integer_in (quantity it)) items ! k"
        by (simp only: r(3))
      then have "integer_in (quantity (items ! k)) = Some (i_quantity row)"
        using k len by simp
      from integer_in_Some [OF this] show ?thesis by simp
    qed
    then show ?thesis
      using r(1,2) by blast
  qed
next
  let ?run = "create_order js_mul js_add fetch now userId (Some items2) shippingAddress db"
  assume frac: "\<exists>it\<in>set items2. quantity it \<noteq> of_int \<lfloor>quantity it\<rfloor>"
  have no: "status_code (fst (snd ?run)) \<noteq> 201"
  proof
    assume ok: "status_code (fst (snd ?run)) = 201"
    obtain db2 r tr2 where run: "?run = (db2, r, tr2)"
      by (cases ?run)
    obtain b2 where r: "r = Response 201 b2"
      using ok run by (cases r) simp
    have run2: "create_order js_mul js_add fetch now userId (Some items2) shippingAddress db = (db2, Response 201 b2, tr2)"
      using run r by simp
    show False
    proof (rule create_order_created_rows [OF run2])
      fix rows
      assume q: "map (\<lambda>row. Some (i_quantity row)) rows = map (\<lambda>it. integer_in (quantity it)) items2"
      from frac obtain k where k: "k < length items2"
        "quantity (items2 ! k) \<noteq> of_int \<lfloor>quantity (items2 ! k)\<rfloor>"
        by (auto simp: in_set_conv_nth)
      have len: "length rows = length items2"
        using arg_cong [OF q, of length] by simp
      have "map (\<lambda>row. Some (i_quantity row)) rows ! k = map (\<lambda>it. integer_in (quantity it)) items2 ! k"
        by (simp only: q)
      then have "integer_in (quantity (items2 ! k)) = Some (i_quantity (rows ! k))"
        using k(1) len by simp
      from integer_in_Some [OF this] have "quantity (items2 ! k) = of_int (i_quantity (rows ! k))"
        by simp
      then have "\<lfloor>quantity (items2 ! k)\<rfloor> = i_quantity (rows ! k)"
        by (simp only: floor_of_int)
      with \<open>quantity (items2 ! k) = of_int (i_quantity (rows ! k))\<close>
      have "quantity (items2 ! k) = of_int \<lfloor>quantity (items2 ! k)\<rfloor>"
        by (simp only:)
      with k(2) show False by (rule notE)
    qed
  qed
  from create_order_rows_kept [OF no] no
  show "status_code (fst (snd ?run)) \<noteq> 201"
    and "orders (fst ?run) = orders db"
    and "order_items (fst ?run) = order_items db"
    by simp_all
qed

theorem create_order_quantities_witness:
  "create_order exact_mul exact_add catalog 7 3 (Some [\<lparr>productId = ''p1'', quantity = 0\<rparr>]) ''{}'' empty_store =
     (\<lparr>orders = [\<lparr>o_id = 1, o_user_id = 3, o_status = ''pending'', o_total_amount = Decimal 0,
         o_shipping_address = ''{}'', o_created_at = 7, o_updated_at = 7\<rparr>],
       order_items = [\<lparr>i_id = 1, i_order_id = 1, i_product_id = ''p1'',
           i_product_name = ''Widget'', i_quantity = 0, i_price = 50, i_created_at = 7\<rparr>],
       orders_id_seq = 2, order_items_id_seq = 2\<rparr>,
      Response 201 (Order_created (Some \<lparr>view_order = \<lparr>o_id = 1, o_user_id = 3,
         o_status = ''pending'', o_total_amount = Decimal 0,
         o_shipping_address = ''{}'', o_created_at = 7, o_updated_at = 7\<rparr>,
       view_items = [\<lparr>i_id = 1, i_order_id = 1, i_product_id = ''p1'',
           i_product_name = ''Widget'', i_quantity = 0, i_price = 50, i_created_at = 7\<rparr>]\<rparr>)),
      [Connect, Query_begin, Product_get ''p1'', Insert_order, Insert_item ''p1'', Query_commit,
       Release])
   \<and> quantity \<lparr>productId = ''p1'', quantity = 3 / 2\<rparr>
       \<noteq> of_int \<lfloor>quantity \<lparr>productId = ''p1'', quantity = 3 / 2\<rparr>\<rfloor>
   \<and> status_code (fst (snd (create_order exact_mul exact_add catalog 7 3
         (Some [\<lparr>productId = ''p1'', quantity = 3 / 2\<rparr>]) ''{}'' empty_store))) \<noteq> 201
   \<and> order_items (fst (create_order exact_mul exact_add catalog 7 3
         (Some [\<lparr>productId = ''p1'', quantity = 3 / 2\<rparr>]) ''{}'' empty_store)) = []"
proof -
  have frac: "\<exists>it\<in>set [\<lparr>productId = ''p1'', quantity = 3 / 2\<rparr>]. quantity it \<noteq> of_int \<lfloor>quantity it\<rfloor>"
    by (simp add: floor_rat_numeral)
  have run: "create_order exact_mul exact_add catalog 7 3 (Some [\<lparr>productId = ''p1'', quantity = 0\<rparr>]) ''{}'' empty_store =
     (\<lparr>orders = [\<lparr>o_id = 1, o_user_id = 3, o_status = ''pending'', o_total_amount = Decimal 0,
         o_shipping_address = ''{}'', o_created_at = 7, o_updated_at = 7\<rparr>],
       order_items = [\<lparr>i_id = 1, i_order_id = 1, i_product_id = ''p1'',
           i_product_name = ''Widget'', i_quantity = 0, i_price = 50, i_created_at = 7\<rparr>],
       orders_id_seq = 2, order_items_id_seq = 2\<rparr>,
      Response 201 (Order_created (Some \<lparr>view_order = \<lparr>o_id = 1, o_user_id = 3,
         o_status = ''pending'', o_total_amount = Decimal 0,
         o_shipping_address = ''{}'', o_created_at = 7, o_updated_at = 7\<rparr>,
       view_items = [\<lparr>i_id = 1, i_order_id = 1, i_product_id = ''p1'',
           i_product_name = ''Widget'', i_quantity = 0, i_price = 50, i_created_at = 7\<rparr>]\<rparr>)),
      [Connect, Query_begin, Product_get ''p1'', Insert_order, Insert_item ''p1'', Query_commit,
       Release])"
    by (simp add: eval_defs)
  have "status_code (fst (snd (create_order exact_mul exact_add catalog 7 3
         (Some [\<lparr>productId = ''p1'', quantity = 3 / 2\<rparr>]) ''{}'' empty_store))) \<noteq> 201
      \<and> order_items (fst (create_order exact_mul exact_add catalog 7 3
         (Some [\<lparr>productId = ''p1'', quantity = 3 / 2\<rparr>]) ''{}'' empty_store)) = order_items empty_store"
    using create_order_quantities [of exact_mul exact_add catalog 7 3
        "[\<lparr>productId = ''p1'', quantity = 0\<rparr>]" "''{}''" empty_store _ _ _
        "[\<lparr>productId = ''p1'', quantity = 3 / 2\<rparr>]"] frac
    by blast
  then show ?thesis
    using run frac by (simp add: empty_store_def floor_rat_numeral floor_rat_one_div)
qed

section \<open>Reading, updating and cancelling orders\<close>

lemma filter_empty_iff: "(filter P xs = []) = (\<not> (\<exists>x\<in>set xs. P x))"
  by (induction xs) auto

lemma getOrderById_owner:
  assumes "userId \<noteq> 0"
  shows "getOrderById db n (Some userId) =
     (case filter (\<lambda>row. o_id row = n \<and> o_user_id row = userId) (orders db) of
        [] \<Rightarrow> None
      | order # _ \<Rightarrow>
          Some \<lparr>view_order = order,
                view_items = filter (\<lambda>i. i_order_id i = n) (order_items db)\<rparr>)"
  using assms by (simp add: getOrderById_def)

lemma get_order_found:
  assumes "userId \<noteq> 0" and "int4in orderId = Some n"
    and "get_order int4in userId orderId db = Response 200 (Order_body view)"
  shows "view_order view \<in> set (orders db) \<and> o_id (view_order view) = n
       \<and> o_user_id (view_order view) = userId
       \<and> view_items view = filter (\<lambda>i. i_order_id i = n) (order_items db)"
proof (cases "filter (\<lambda>row. o_id row = n \<and> o_user_id row = userId) (orders db)")
  case Nil
  then show ?thesis
    using assms by (simp add: get_order_def getOrderById_owner)
next
  case (Cons order rest)
  then have "order \<in> set (filter (\<lambda>row. o_id row = n \<and> o_user_id row = userId) (orders db))"
    by simp
  then have "order \<in> set (orders db) \<and> o_id order = n \<and> o_user_id order = userId"
    by simp
  moreover have "view = \<lparr>view_order = order,
      view_items = filter (\<lambda>i. i_order_id i = n) (order_items db)\<rparr>"
    using assms Cons by (simp add: get_order_def getOrderById_owner)
  ultimately show ?thesis by simp
qed

lemma get_order_missing:
  assumes "userId \<noteq> 0" and "int4in orderId = Some n"
    and "\<not> (\<exists>row\<in>set (orders db). o_id row = n \<and> o_user_id row = userId)"
  shows "get_order int4in userId orderId db = Response 404 (Error ''Order not found'')"
proof -
  have "filter (\<lambda>row. o_id row = n \<and> o_user_id row = userId) (orders db) = []"
    using assms(3) by (simp add: filter_empty_iff)
  then show ?thesis
    using assms(1,2) by (simp add: get_order_def getOrderById_owner)
qed

lemma get_order_present:
  assumes "userId \<noteq> 0" and "int4in orderId = Some n"
    and "\<exists>row\<in>set (orders db). o_id row = n \<and> o_user_id row = userId"
  shows "\<exists>view. get_order int4in userId orderId db = Response 200 (Order_body view)"
proof -
  have "filter (\<lambda>row. o_id row = n \<and> o_user_id row = userId) (orders db) \<noteq> []"
    using assms(3) by (simp add: filter_empty_iff)
  then obtain order rest where
    "filter (\<lambda>row. o_id row = n \<and> o_user_id row = userId) (orders db) = order # rest"
    by (cases "filter (\<lambda>row. o_id row = n \<and> o_user_id row = userId) (orders db)") auto
  then show ?thesis
    using assms(1,2) by (simp add: get_order_def getOrderById_owner)
qed

lemma get_order_unreadable:
  assumes "int4in orderId = None"
  shows "get_order int4in userId orderId db = Response 500 (Error ''Internal server error'')"
  using assms by (simp add: get_order_def)

lemmas int4_eval = decimal_int4_def digit_of_def

text \<open>
  C6. The claim is that for every order id the answer is the order when it exists and is
  the caller's, and the same 404 otherwise, also when no order has the id. The id is a
  text of the URL that the database must read as an \<open>INTEGER\<close>: for \<open>2147483648\<close>, which
  no order can have, the query is rejected and the handler answers 500, not 404.
\<close>

theorem get_order_unreadable_id_counterexample:
  "get_order decimal_int4 3 ''2147483648'' sample_store
     = Response 500 (Error ''Internal server error'')
   \<and> get_order decimal_int4 3 ''2147483648'' sample_store
     \<noteq> Response 404 (Error ''Order not found'')
   \<and> map o_id (orders sample_store) = [1, 2, 3, 4]"
  by (simp add: get_order_def int4_eval sample_store_def)

text \<open>
  C6, as the code has it. A caller is a user id taken from a verified token; the user
  service issues ids from a \<open>SERIAL\<close> column, so a caller's id is not 0. For every such
  caller and every id that the database reads as an \<open>INTEGER\<close>, \<open>GET /orders/:id\<close>
  answers 200 with an order exactly when a row with that id and that owner exists, and the
  order it returns is such a row, with its items. When no such row exists the answer is
  404 \<open>Order not found\<close>: the answer for an id that no order has and the answer for an id
  whose order belongs to somebody else are the same response. An id that the database
  does not read as an \<open>INTEGER\<close> is answered 500, whatever the database holds.
\<close>

theorem get_order_owner_only:
  "userId \<noteq> 0 \<longrightarrow>
     (int4in orderId = Some n \<longrightarrow>
        (get_order int4in userId orderId db = Response 200 (Order_body view) \<longrightarrow>
           view_order view \<in> set (orders db) \<and> o_id (view_order view) = n
           \<and> o_user_id (view_order view) = userId
           \<and> view_items view = filter (\<lambda>i. i_order_id i = n) (order_items db))
        \<and> ((\<exists>v. get_order int4in userId orderId db = Response 200 (Order_body v))
             = (\<exists>row\<in>set (orders db). o_id row = n \<and> o_user_id row = userId)))
   \<and> (int4in other_id = Some m
        \<and> \<not> (\<exists>row\<in>set (orders db_m). o_id row = m \<and> o_user_id row = userId) \<longrightarrow>
        get_order int4in userId other_id db_m = Response 404 (Error ''Order not found''))
   \<and> (int4in other_id = Some m
        \<and> (\<forall>row\<in>set (orders db_none). o_id row \<noteq> m)
        \<and> (\<exists>row\<in>set (orders db_other). o_id row = m)
        \<and> (\<forall>row\<in>set (orders db_other). o_id row = m \<longrightarrow> o_user_id row \<noteq> userId) \<longrightarrow>
        get_order int4in userId other_id db_none = Response 404 (Error ''Order not found'')
        \<and> get_order int4in userId other_id db_other = Response 404 (Error ''Order not found''))
   \<and> (int4in bad_id = None \<longrightarrow>
        get_order int4in userId bad_id db = Response 500 (Error ''Internal server error''))"
proof (intro impI conjI)
  assume u: "userId \<noteq> 0"
  {
    assume n: "int4in orderId = Some n"
    {
      assume "get_order int4in userId orderId db = Response 200 (Order_body view)"
      from get_order_found [where int4in = int4in and orderId = orderId, OF u n this]
      show "view_order view \<in> set (orders db)" and "o_id (view_order view) = n"
        and "o_user_id (view_order view) = userId"
        and "view_items view = filter (\<lambda>i. i_order_id i = n) (order_items db)"
        by simp_all
    }
    show "(\<exists>v. get_order int4in userId orderId db = Response 200 (Order_body v))
          = (\<exists>row\<in>set (orders db). o_id row = n \<and> o_user_id row = userId)"
    proof
      assume "\<exists>v. get_order int4in userId orderId db = Response 200 (Order_body v)"
      then obtain v where "get_order int4in userId orderId db = Response 200 (Order_body v)"
        by blast
      from get_order_found [where int4in = int4in and orderId = orderId, OF u n this] show
        "\<exists>row\<in>set (orders db). o_id row = n \<and> o_user_id row = userId"
        by blast
    next
      assume "\<exists>row\<in>set (orders db). o_id row = n \<and> o_user_id row = userId"
      then show "\<exists>v. get_order int4in userId orderId db = Response 200 (Order_body v)"
        by (rule get_order_present [where int4in = int4in and orderId = orderId, OF u n])
    qed
  }
  {
    assume "int4in other_id = Some m
        \<and> \<not> (\<exists>row\<in>set (orders db_m). o_id row = m \<and> o_user_id row = userId)"
    then show "get_order int4in userId other_id db_m = Response 404 (Error ''Order not found'')"
      using get_order_missing [where int4in = int4in and orderId = other_id and n = m, OF u]
      by blast
  }
  {
    assume h: "int4in other_id = Some m
        \<and> (\<forall>row\<in>set (orders db_none). o_id row \<noteq> m)
        \<and> (\<exists>row\<in>set (orders db_other). o_id row = m)
        \<and> (\<forall>row\<in>set (orders db_other). o_id row = m \<longrightarrow> o_user_id row \<noteq> userId)"
    then have m: "int4in other_id = Some m" by simp
    from h have "\<not> (\<exists>row\<in>set (orders db_none). o_id row = m \<and> o_user_id row = userId)"
      by blast
    then show "get_order int4in userId other_id db_none = Response 404 (Error ''Order not found'')"
      by (rule get_order_missing [where int4in = int4in and orderId = other_id, OF u m])
    from h have "\<not> (\<exists>row\<in>set (orders db_other). o_id row = m \<and> o_user_id row = userId)"
      by blast
    then show "get_order int4in userId other_id db_other = Response 404 (Error ''Order not found'')"
      by (rule get_order_missing [where int4in = int4in and orderId = other_id, OF u m])
  }
  {
    assume "int4in bad_id = None"
    then show "get_order int4in userId bad_id db = Response 500 (Error ''Internal server error'')"
      by (rule get_order_unreadable [where int4in = int4in and orderId = bad_id])
  }
qed

theorem get_order_owner_only_witness:
  "(3::int) \<noteq> 0
   \<and> decimal_int4 ''1'' = Some 1 \<and> decimal_int4 ''2'' = Some 2 \<and> decimal_int4 ''abc'' = None
   \<and> get_order decimal_int4 3 ''1'' sample_store =
       Response 200 (Order_body
         \<lparr>view_order = \<lparr>o_id = 1, o_user_id = 3, o_status = ''delivered'',
            o_total_amount = Decimal 100,
            o_shipping_address = ''{}'', o_created_at = 10, o_updated_at = 20\<rparr>,
          view_items = [\<lparr>i_id = 1, i_order_id = 1, i_product_id = ''p1'',
            i_product_name = ''Widget'', i_quantity = 2, i_price = 50, i_created_at = 10\<rparr>]\<rparr>)
   \<and> set (map o_id (orders empty_store)) = {}
   \<and> map o_user_id (filter (\<lambda>row. o_id row = 2) (orders sample_store)) = [5]
   \<and> get_order decimal_int4 3 ''2'' empty_store = Response 404 (Error ''Order not found'')
   \<and> get_order decimal_int4 3 ''2'' sample_store = Response 404 (Error ''Order not found'')
   \<and> get_order decimal_int4 3 ''abc'' sample_store = Response 500 (Error ''Internal server error'')"
proof -
  have ids: "decimal_int4 ''1'' = Some 1" "decimal_int4 ''2'' = Some 2" "decimal_int4 ''abc'' = None"
    by (simp_all add: int4_eval)
  have found: "get_order decimal_int4 3 ''1'' sample_store =
       Response 200 (Order_body
         \<lparr>view_order = \<lparr>o_id = 1, o_user_id = 3, o_status = ''delivered'',
            o_total_amount = Decimal 100,
            o_shipping_address = ''{}'', o_created_at = 10, o_updated_at = 20\<rparr>,
          view_items = [\<lparr>i_id = 1, i_order_id = 1, i_product_id = ''p1'',
            i_product_name = ''Widget'', i_quantity = 2, i_price = 50, i_created_at = 10\<rparr>]\<rparr>)"
    by (simp add: get_order_def getOrderById_def sample_store_def ids)
  have other: "decimal_int4 ''2'' = Some 2
        \<and> (\<forall>row\<in>set (orders empty_store). o_id row \<noteq> 2)
        \<and> (\<exists>row\<in>set (orders sample_store). o_id row = 2)
        \<and> (\<forall>row\<in>set (orders sample_store). o_id row = 2 \<longrightarrow> o_user_id row \<noteq> 3)"
    by (simp add: sample_store_def empty_store_def ids)
  have nz: "(3::int) \<noteq> 0"
    by simp
  note t = get_order_owner_only [where int4in = decimal_int4 and userId = 3
      and orderId = "''1''" and n = 1 and db = sample_store and other_id = "''2''" and m = 2
      and db_m = empty_store and db_none = empty_store and db_other = sample_store
      and bad_id = "''abc''", THEN mp, OF nz]
  from t other
  have "get_order decimal_int4 3 ''2'' empty_store = Response 404 (Error ''Order not found'')
      \<and> get_order decimal_int4 3 ''2'' sample_store = Response 404 (Error ''Order not found'')"
    by blast
  moreover from t ids(3)
  have "get_order decimal_int4 3 ''abc'' sample_store = Response 500 (Error ''Internal server error'')"
    by blast
  ultimately show ?thesis
    using found ids by (simp add: sample_store_def empty_store_def)
qed

text \<open>
  At the boundary of the assumption on callers: for a user id of 0 the owner is not part
  of the query, and the order of user 5 is returned.
\<close>

lemma get_order_user_zero:
  "get_order decimal_int4 0 ''2'' sample_store =
     Response 200 (Order_body
       \<lparr>view_order = \<lparr>o_id = 2, o_user_id = 5, o_status = ''pending'',
          o_total_amount = Decimal 50,
          o_shipping_address = ''{}'', o_created_at = 30, o_updated_at = 30\<rparr>,
        view_items = []\<rparr>)"
  by (simp add: get_order_def getOrderById_def sample_store_def int4_eval)

lemma update_where_rows_empty:
  "(length (fst (update_where hit status now db)) = 0) = (\<not> (\<exists>row\<in>set (orders db). hit row))"
  by (simp add: update_where_def filter_empty_iff)

lemma update_where_no_hit:
  assumes "\<not> (\<exists>row\<in>set (orders db). hit row)"
  shows "snd (update_where hit status now db) = db"
proof -
  have "map (\<lambda>row. if hit row then row\<lparr>o_status := status, o_updated_at := now\<rparr> else row) rows = rows"
    if "\<forall>row\<in>set rows. \<not> hit row" for rows
    using that by (induction rows) simp_all
  then have "map (\<lambda>row. if hit row then row\<lparr>o_status := status, o_updated_at := now\<rparr> else row)
      (orders db) = orders db"
    using assms by blast
  then show ?thesis by (simp add: update_where_def)
qed

lemma update_where_orders:
  "orders (snd (update_where hit status now db)) =
     map (\<lambda>row. if hit row then row\<lparr>o_status := status, o_updated_at := now\<rparr> else row) (orders db)"
  by (simp add: update_where_def)

lemma update_status_valid:
  assumes "status \<in> set validStatuses" and "int4in orderId = Some n"
  shows "update_status int4in now userId orderId status db =
     (if \<exists>row\<in>set (orders db). o_id row = n \<and> o_user_id row = userId
      then (snd (update_where (\<lambda>row. o_id row = n \<and> o_user_id row = userId) status now db),
            Response 200 (Status_updated
              (getOrderById
                 (snd (update_where (\<lambda>row. o_id row = n \<and> o_user_id row = userId) status now db))
                 n (Some userId))))
      else (db, Response 404 (Error ''Order not found'')))"
proof -
  let ?hit = "\<lambda>row. o_id row = n \<and> o_user_id row = userId"
  obtain rows db' where uw: "update_where ?hit status now db = (rows, db')"
    by (cases "update_where ?hit status now db")
  have rows: "(length rows = 0) = (\<not> (\<exists>row\<in>set (orders db). ?hit row))"
    using update_where_rows_empty [of ?hit status now db] uw by simp
  have db': "\<not> (\<exists>row\<in>set (orders db). ?hit row) \<Longrightarrow> db' = db"
    using update_where_no_hit [of db ?hit status now] uw by simp
  show ?thesis
  proof (cases "\<exists>row\<in>set (orders db). ?hit row")
    case True
    then show ?thesis
      using assms rows uw by (simp add: update_status_def)
  next
    case False
    then show ?thesis
      using assms rows uw db' by (simp add: update_status_def)
  qed
qed

lemma update_status_unreadable:
  assumes "status \<in> set validStatuses" and "int4in orderId = None"
  shows "update_status int4in now userId orderId status db =
     (db, Response 500 (Error ''Internal server error''))"
  using assms by (simp add: update_status_def)

text \<open>
  C7. The claim is that, for a status of the enumeration, the update fails with 404 when
  no row matches the id and the owner. The id is a text of the URL that the database must
  read as an \<open>INTEGER\<close>: for \<open>2147483648\<close>, which no row matches, the statement is
  rejected and the handler answers 500, not 404.
\<close>

theorem update_status_unreadable_id_counterexample:
  "''pending'' \<in> set validStatuses
   \<and> update_status decimal_int4 70 3 ''2147483648'' ''pending'' sample_store
       = (sample_store, Response 500 (Error ''Internal server error''))
   \<and> map o_id (orders sample_store) = [1, 2, 3, 4]"
  by (simp add: update_status_def validStatuses_def int4_eval sample_store_def)

text \<open>
  C7, as the code has it. \<open>PATCH /orders/:id/status\<close> answers 400 \<open>Invalid status\<close>, and
  changes nothing, exactly when the new status is not one of \<open>pending\<close>, \<open>confirmed\<close>,
  \<open>processing\<close>, \<open>shipped\<close>, \<open>delivered\<close>, \<open>cancelled\<close>. For a status of the list and an id
  that the database reads as an \<open>INTEGER\<close>: when a row has that id and the caller as
  owner, whatever the row's current status, the answer is 200 and the rows with that id
  and owner get the new status (and \<open>updated_at\<close>), the other rows staying as they are;
  when no row has that id and owner, the answer is 404 \<open>Order not found\<close> and nothing
  changes. For a status of the list and an id that the database does not read as an
  \<open>INTEGER\<close>, the answer is 500 and nothing changes.
\<close>

theorem update_status_rules:
  "((status_code (snd (update_status int4in now userId orderId status db)) = 400)
      = (status \<notin> set validStatuses))
   \<and> (status \<notin> set validStatuses \<longrightarrow>
        update_status int4in now userId orderId status db
          = (db, Response 400 (Error ''Invalid status'')))
   \<and> (new_status \<in> set validStatuses \<and> int4in row_id = Some n
        \<and> row \<in> set (orders db_row) \<and> o_id row = n \<and> o_user_id row = userId \<longrightarrow>
        (\<exists>v. snd (update_status int4in now userId row_id new_status db_row)
               = Response 200 (Status_updated v))
        \<and> row\<lparr>o_status := new_status, o_updated_at := now\<rparr>
             \<in> set (orders (fst (update_status int4in now userId row_id new_status db_row)))
        \<and> orders (fst (update_status int4in now userId row_id new_status db_row)) =
             map (\<lambda>r. if o_id r = n \<and> o_user_id r = userId
                       then r\<lparr>o_status := new_status, o_updated_at := now\<rparr> else r)
                 (orders db_row))
   \<and> (new_status \<in> set validStatuses \<and> int4in other_id = Some m
        \<and> \<not> (\<exists>r\<in>set (orders db_m). o_id r = m \<and> o_user_id r = userId) \<longrightarrow>
        update_status int4in now userId other_id new_status db_m
          = (db_m, Response 404 (Error ''Order not found'')))
   \<and> (new_status \<in> set validStatuses \<and> int4in bad_id = None \<longrightarrow>
        update_status int4in now userId bad_id new_status db
          = (db, Response 500 (Error ''Internal server error'')))"
proof (intro conjI impI)
  show "(status_code (snd (update_status int4in now userId orderId status db)) = 400)
      = (status \<notin> set validStatuses)"
  proof (cases "status \<in> set validStatuses")
    case True
    then show ?thesis
    proof (cases "int4in orderId")
      case None
      then show ?thesis
        using True update_status_unreadable [where int4in = int4in and orderId = orderId,
          OF True None]
        by simp
    next
      case (Some k)
      show ?thesis
        using True update_status_valid [where int4in = int4in and orderId = orderId,
          OF True Some]
        by simp
    qed
  next
    case False
    then show ?thesis by (simp add: update_status_def)
  qed
next
  assume "status \<notin> set validStatuses"
  then show "update_status int4in now userId orderId status db
      = (db, Response 400 (Error ''Invalid status''))"
    by (simp add: update_status_def)
next
  assume h: "new_status \<in> set validStatuses \<and> int4in row_id = Some n
        \<and> row \<in> set (orders db_row) \<and> o_id row = n \<and> o_user_id row = userId"
  then have v: "new_status \<in> set validStatuses" and n: "int4in row_id = Some n"
    and ex: "\<exists>r\<in>set (orders db_row). o_id r = n \<and> o_user_id r = userId"
    by auto
  let ?db' = "snd (update_where (\<lambda>row. o_id row = n \<and> o_user_id row = userId) new_status now db_row)"
  have run: "update_status int4in now userId row_id new_status db_row =
      (?db', Response 200 (Status_updated (getOrderById ?db' n (Some userId))))"
    using ex update_status_valid [where int4in = int4in and orderId = row_id, OF v n]
    by simp
  show "\<exists>v. snd (update_status int4in now userId row_id new_status db_row)
      = Response 200 (Status_updated v)"
    unfolding run by simp
  show rows: "orders (fst (update_status int4in now userId row_id new_status db_row)) =
             map (\<lambda>r. if o_id r = n \<and> o_user_id r = userId
                       then r\<lparr>o_status := new_status, o_updated_at := now\<rparr> else r)
                 (orders db_row)"
    unfolding run by (simp add: update_where_orders)
  have "(\<lambda>r. if o_id r = n \<and> o_user_id r = userId
              then r\<lparr>o_status := new_status, o_updated_at := now\<rparr> else r) row
        \<in> set (map (\<lambda>r. if o_id r = n \<and> o_user_id r = userId
                       then r\<lparr>o_status := new_status, o_updated_at := now\<rparr> else r)
                   (orders db_row))"
    using h by (intro imageI [of row "set (orders db_row)", folded set_map]) simp
  then show "row\<lparr>o_status := new_status, o_updated_at := now\<rparr>
             \<in> set (orders (fst (update_status int4in now userId row_id new_status db_row)))"
    unfolding rows using h by simp
next
  assume h: "new_status \<in> set validStatuses \<and> int4in other_id = Some m
        \<and> \<not> (\<exists>r\<in>set (orders db_m). o_id r = m \<and> o_user_id r = userId)"
  then have v: "new_status \<in> set validStatuses" and m: "int4in other_id = Some m"
    by simp_all
  show "update_status int4in now userId other_id new_status db_m
      = (db_m, Response 404 (Error ''Order not found''))"
    using h update_status_valid [where int4in = int4in and orderId = other_id, OF v m]
    by simp
next
  assume h: "new_status \<in> set validStatuses \<and> int4in bad_id = None"
  then have v: "new_status \<in> set validStatuses" and b: "int4in bad_id = None"
    by simp_all
  show "update_status int4in now userId bad_id new_status db
      = (db, Response 500 (Error ''Internal server error''))"
    using update_status_unreadable [where int4in = int4in and orderId = bad_id, OF v b] .
qed

theorem update_status_rules_witness:
  "''refunded'' \<notin> set validStatuses
   \<and> update_status decimal_int4 70 3 ''1'' ''refunded'' sample_store
       = (sample_store, Response 400 (Error ''Invalid status''))
   \<and> ''pending'' \<in> set validStatuses
   \<and> decimal_int4 ''1'' = Some 1 \<and> decimal_int4 ''2'' = Some 2 \<and> decimal_int4 ''abc'' = None
   \<and> map o_status (filter (\<lambda>r. o_id r = 1 \<and> o_user_id r = 3) (orders sample_store)) = [''delivered'']
   \<and> map o_status (orders (fst (update_status decimal_int4 70 3 ''1'' ''pending'' sample_store)))
       = [''pending'', ''pending'', ''confirmed'', ''shipped'']
   \<and> status_code (snd (update_status decimal_int4 70 3 ''1'' ''pending'' sample_store)) = 200
   \<and> filter (\<lambda>r. o_id r = 2 \<and> o_user_id r = 3) (orders sample_store) = []
   \<and> update_status decimal_int4 70 3 ''2'' ''pending'' sample_store
       = (sample_store, Response 404 (Error ''Order not found''))
   \<and> update_status decimal_int4 70 3 ''abc'' ''pending'' sample_store
       = (sample_store, Response 500 (Error ''Internal server error''))"
proof -
  have a: "''refunded'' \<notin> set validStatuses" "''pending'' \<in> set validStatuses"
    by (simp_all add: validStatuses_def)
  have ids: "decimal_int4 ''1'' = Some 1" "decimal_int4 ''2'' = Some 2" "decimal_int4 ''abc'' = None"
    by (simp_all add: int4_eval)
  have b: "\<lparr>o_id = 1, o_user_id = 3, o_status = ''delivered'', o_total_amount = Decimal 100,
          o_shipping_address = ''{}'', o_created_at = 10, o_updated_at = 20\<rparr> \<in> set (orders sample_store)"
    by (simp add: sample_store_def)
  have c: "\<not> (\<exists>r\<in>set (orders sample_store). o_id r = 2 \<and> o_user_id r = 3)"
    by (simp add: sample_store_def)
  note t = update_status_rules [where int4in = decimal_int4 and now = 70 and userId = 3
      and orderId = "''1''" and status = "''refunded''" and db = sample_store
      and new_status = "''pending''" and row_id = "''1''" and n = 1
      and row = "\<lparr>o_id = 1, o_user_id = 3, o_status = ''delivered'', o_total_amount = Decimal 100,
          o_shipping_address = ''{}'', o_created_at = 10, o_updated_at = 20\<rparr>"
      and db_row = sample_store and other_id = "''2''" and m = 2 and db_m = sample_store
      and bad_id = "''abc''"]
  have t1: "update_status decimal_int4 70 3 ''1'' ''refunded'' sample_store
       = (sample_store, Response 400 (Error ''Invalid status''))"
    using t a by blast
  have t2: "orders (fst (update_status decimal_int4 70 3 ''1'' ''pending'' sample_store)) =
             map (\<lambda>r. if o_id r = 1 \<and> o_user_id r = 3
                       then r\<lparr>o_status := ''pending'', o_updated_at := 70\<rparr> else r) (orders sample_store)"
    and t3: "\<exists>v. snd (update_status decimal_int4 70 3 ''1'' ''pending'' sample_store)
               = Response 200 (Status_updated v)"
    using t a b ids by simp_all
  have t4: "update_status decimal_int4 70 3 ''2'' ''pending'' sample_store
       = (sample_store, Response 404 (Error ''Order not found''))"
    using t a c ids by blast
  have t5: "update_status decimal_int4 70 3 ''abc'' ''pending'' sample_store
       = (sample_store, Response 500 (Error ''Internal server error''))"
    using t a ids by blast
  have s: "map o_status (orders (fst (update_status decimal_int4 70 3 ''1'' ''pending'' sample_store)))
       = [''pending'', ''pending'', ''confirmed'', ''shipped'']"
    unfolding t2 by (simp add: sample_store_def)
  have code: "status_code (snd (update_status decimal_int4 70 3 ''1'' ''pending'' sample_store)) = 200"
    using t3 by auto
  show ?thesis
    using a ids t1 t4 t5 s code by (simp add: sample_store_def)
qed

lemma cancel_order_cases:
  assumes "int4in orderId = Some n"
  shows "cancel_order int4in now userId orderId db =
     (if \<exists>row\<in>set (orders db). o_id row = n \<and> o_user_id row = userId
            \<and> (o_status row = ''pending'' \<or> o_status row = ''confirmed'')
      then (snd (update_where
                   (\<lambda>row. o_id row = n \<and> o_user_id row = userId
                          \<and> (o_status row = ''pending'' \<or> o_status row = ''confirmed''))
                   ''cancelled'' now db),
            Response 200 (Message ''Order cancelled successfully''))
      else (db, Response 404 (Error ''Order not found or cannot be cancelled'')))"
proof -
  let ?hit = "\<lambda>row. o_id row = n \<and> o_user_id row = userId
      \<and> (o_status row = ''pending'' \<or> o_status row = ''confirmed'')"
  obtain rows db' where uw: "update_where ?hit ''cancelled'' now db = (rows, db')"
    by (cases "update_where ?hit ''cancelled'' now db")
  have rows: "(length rows = 0) = (\<not> (\<exists>row\<in>set (orders db). ?hit row))"
    using update_where_rows_empty [of ?hit "''cancelled''" now db] uw by simp
  have db': "\<not> (\<exists>row\<in>set (orders db). ?hit row) \<Longrightarrow> db' = db"
    using update_where_no_hit [of db ?hit "''cancelled''" now] uw by simp
  show ?thesis
  proof (cases "\<exists>row\<in>set (orders db). ?hit row")
    case True
    then show ?thesis
      using assms rows uw by (simp add: cancel_order_def)
  next
    case False
    then show ?thesis
      using assms rows uw db' by (simp add: cancel_order_def)
  qed
qed

lemma cancel_order_unreadable:
  assumes "int4in orderId = None"
  shows "cancel_order int4in now userId orderId db =
     (db, Response 500 (Error ''Internal server error''))"
  using assms by (simp add: cancel_order_def)

text \<open>
  C8. The claim is that in every case other than a pending or confirmed order of the
  caller, a nonexistent order included, the answer is the same 404. The id is a text of
  the URL that the database must read as an \<open>INTEGER\<close>: for \<open>2147483648\<close>, which no order
  can have, the statement is rejected and the handler answers 500, not 404.
\<close>

theorem cancel_order_unreadable_id_counterexample:
  "cancel_order decimal_int4 70 3 ''2147483648'' sample_store
     = (sample_store, Response 500 (Error ''Internal server error''))
   \<and> map o_id (orders sample_store) = [1, 2, 3, 4]"
  by (simp add: cancel_order_def int4_eval sample_store_def)

text \<open>
  C8, as the code has it. For an id that the database reads as an \<open>INTEGER\<close>,
  \<open>DELETE /orders/:id\<close> answers 200 exactly when a row has that id, the caller as owner
  and the status \<open>pending\<close> or \<open>confirmed\<close>; the rows of that kind then get the status
  \<open>cancelled\<close> (and \<open>updated_at\<close>), the other rows staying as they are. In every other case
  with such an id (no row with the id, another owner, or a status such as \<open>processing\<close>,
  \<open>shipped\<close>, \<open>delivered\<close> or \<open>cancelled\<close>) the answer is the same 404 response and the
  database is what it was. For an id that the database does not read as an \<open>INTEGER\<close>,
  the answer is 500 and the database is what it was.
\<close>

theorem cancel_order_rules:
  "(int4in orderId = Some n \<longrightarrow>
      ((status_code (snd (cancel_order int4in now userId orderId db)) = 200)
        = (\<exists>row\<in>set (orders db). o_id row = n \<and> o_user_id row = userId
             \<and> (o_status row = ''pending'' \<or> o_status row = ''confirmed'')))
      \<and> ((\<exists>row\<in>set (orders db). o_id row = n \<and> o_user_id row = userId
             \<and> (o_status row = ''pending'' \<or> o_status row = ''confirmed'')) \<longrightarrow>
          snd (cancel_order int4in now userId orderId db)
            = Response 200 (Message ''Order cancelled successfully'')
          \<and> orders (fst (cancel_order int4in now userId orderId db)) =
              map (\<lambda>row. if o_id row = n \<and> o_user_id row = userId
                             \<and> (o_status row = ''pending'' \<or> o_status row = ''confirmed'')
                          then row\<lparr>o_status := ''cancelled'', o_updated_at := now\<rparr> else row)
                  (orders db)))
   \<and> (int4in other_id = Some m
        \<and> \<not> (\<exists>row\<in>set (orders db_m). o_id row = m \<and> o_user_id row = userId
                 \<and> (o_status row = ''pending'' \<or> o_status row = ''confirmed'')) \<longrightarrow>
        cancel_order int4in now userId other_id db_m
          = (db_m, Response 404 (Error ''Order not found or cannot be cancelled'')))
   \<and> (int4in bad_id = None \<longrightarrow>
        cancel_order int4in now userId bad_id db
          = (db, Response 500 (Error ''Internal server error'')))"
proof (intro conjI impI)
  assume n: "int4in orderId = Some n"
  note eq = cancel_order_cases [where int4in = int4in and orderId = orderId, OF n]
  show "(status_code (snd (cancel_order int4in now userId orderId db)) = 200)
      = (\<exists>row\<in>set (orders db). o_id row = n \<and> o_user_id row = userId
           \<and> (o_status row = ''pending'' \<or> o_status row = ''confirmed''))"
    by (simp add: eq)
  {
    assume h: "\<exists>row\<in>set (orders db). o_id row = n \<and> o_user_id row = userId
           \<and> (o_status row = ''pending'' \<or> o_status row = ''confirmed'')"
    then show "snd (cancel_order int4in now userId orderId db)
          = Response 200 (Message ''Order cancelled successfully'')"
      by (simp add: eq)
    from h show "orders (fst (cancel_order int4in now userId orderId db)) =
            map (\<lambda>row. if o_id row = n \<and> o_user_id row = userId
                           \<and> (o_status row = ''pending'' \<or> o_status row = ''confirmed'')
                        then row\<lparr>o_status := ''cancelled'', o_updated_at := now\<rparr> else row)
                (orders db)"
      by (simp add: eq update_where_orders)
  }
next
  assume h: "int4in other_id = Some m
        \<and> \<not> (\<exists>row\<in>set (orders db_m). o_id row = m \<and> o_user_id row = userId
                 \<and> (o_status row = ''pending'' \<or> o_status row = ''confirmed''))"
  then have m: "int4in other_id = Some m" by simp
  show "cancel_order int4in now userId other_id db_m
          = (db_m, Response 404 (Error ''Order not found or cannot be cancelled''))"
    using h cancel_order_cases [where int4in = int4in and orderId = other_id, OF m]
    by simp
next
  assume "int4in bad_id = None"
  then show "cancel_order int4in now userId bad_id db
          = (db, Response 500 (Error ''Internal server error''))"
    by (rule cancel_order_unreadable [where int4in = int4in and orderId = bad_id])
qed

theorem cancel_order_rules_witness:
  "decimal_int4 ''3'' = Some 3 \<and> decimal_int4 ''4'' = Some 4 \<and> decimal_int4 ''2'' = Some 2
   \<and> decimal_int4 ''9'' = Some 9 \<and> decimal_int4 ''abc'' = None
   \<and> map o_status (filter (\<lambda>row. o_id row = 3 \<and> o_user_id row = 3) (orders sample_store))
       = [''confirmed'']
   \<and> snd (cancel_order decimal_int4 70 3 ''3'' sample_store)
       = Response 200 (Message ''Order cancelled successfully'')
   \<and> map o_status (orders (fst (cancel_order decimal_int4 70 3 ''3'' sample_store)))
       = [''delivered'', ''pending'', ''cancelled'', ''shipped'']
   \<and> cancel_order decimal_int4 70 3 ''4'' sample_store
       = (sample_store, Response 404 (Error ''Order not found or cannot be cancelled''))
   \<and> cancel_order decimal_int4 70 3 ''2'' sample_store
       = (sample_store, Response 404 (Error ''Order not found or cannot be cancelled''))
   \<and> cancel_order decimal_int4 70 3 ''9'' sample_store
       = (sample_store, Response 404 (Error ''Order not found or cannot be cancelled''))
   \<and> cancel_order decimal_int4 70 3 ''abc'' sample_store
       = (sample_store, Response 500 (Error ''Internal server error''))"
proof -
  have ids: "decimal_int4 ''3'' = Some 3" "decimal_int4 ''4'' = Some 4" "decimal_int4 ''2'' = Some 2"
    "decimal_int4 ''9'' = Some 9" "decimal_int4 ''abc'' = None"
    by (simp_all add: int4_eval)
  have hit: "\<exists>row\<in>set (orders sample_store). o_id row = 3 \<and> o_user_id row = 3
           \<and> (o_status row = ''pending'' \<or> o_status row = ''confirmed'')"
    by (simp add: sample_store_def)
  have shipped: "\<not> (\<exists>row\<in>set (orders sample_store). o_id row = 4 \<and> o_user_id row = 3
           \<and> (o_status row = ''pending'' \<or> o_status row = ''confirmed''))"
    and other: "\<not> (\<exists>row\<in>set (orders sample_store). o_id row = 2 \<and> o_user_id row = 3
           \<and> (o_status row = ''pending'' \<or> o_status row = ''confirmed''))"
    and missing: "\<not> (\<exists>row\<in>set (orders sample_store). o_id row = 9 \<and> o_user_id row = 3
           \<and> (o_status row = ''pending'' \<or> o_status row = ''confirmed''))"
    by (simp_all add: sample_store_def)
  note t = cancel_order_rules [where int4in = decimal_int4 and now = 70 and userId = 3
      and orderId = "''3''" and n = 3 and db = sample_store and db_m = sample_store
      and bad_id = "''abc''"]
  have ok: "snd (cancel_order decimal_int4 70 3 ''3'' sample_store)
      = Response 200 (Message ''Order cancelled successfully'')"
    and rows: "orders (fst (cancel_order decimal_int4 70 3 ''3'' sample_store)) =
            map (\<lambda>row. if o_id row = 3 \<and> o_user_id row = 3
                           \<and> (o_status row = ''pending'' \<or> o_status row = ''confirmed'')
                        then row\<lparr>o_status := ''cancelled'', o_updated_at := 70\<rparr> else row)
                (orders sample_store)"
    using t [where other_id = "''4''" and m = 4] hit ids by simp_all
  have r4: "cancel_order decimal_int4 70 3 ''4'' sample_store
       = (sample_store, Response 404 (Error ''Order not found or cannot be cancelled''))"
    using t [where other_id = "''4''" and m = 4] shipped ids by blast
  have r2: "cancel_order decimal_int4 70 3 ''2'' sample_store
       = (sample_store, Response 404 (Error ''Order not found or cannot be cancelled''))"
    using t [where other_id = "''2''" and m = 2] other ids by blast
  have r9: "cancel_order decimal_int4 70 3 ''9'' sample_store
       = (sample_store, Response 404 (Error ''Order not found or cannot be cancelled''))"
    using t [where other_id = "''9''" and m = 9] missing ids by blast
  have rbad: "cancel_order decimal_int4 70 3 ''abc'' sample_store
       = (sample_store, Response 500 (Error ''Internal server error''))"
    using t [where other_id = "''4''" and m = 4] ids by blast
  have s: "map o_status (orders (fst (cancel_order decimal_int4 70 3 ''3'' sample_store)))
       = [''delivered'', ''pending'', ''cancelled'', ''shipped'']"
    unfolding rows by (simp add: sample_store_def)
  show ?thesis
    using ids ok s r4 r2 r9 rbad by (simp add: sample_store_def)
qed

section \<open>Listing orders\<close>

text \<open>
  C10. When \<open>GET /orders\<close> answers 200, the \<open>total\<close> of the pagination object is the
  number of orders in the returned page. It is at most \<open>limit\<close>, and it is the smaller of
  \<open>limit\<close> and the number of the caller's matching orders left after the offset
  \<open>(page - 1) * limit\<close>: it is not the number of the caller's matching orders.
\<close>

theorem list_orders_total:
  "list_orders userId page_q limit_q status db = Response 200 (Order_list orders_out pg) \<longrightarrow>
     pg_total pg = length orders_out
     \<and> int (pg_total pg) \<le> pg_limit pg
     \<and> pg_limit pg = (case limit_q of None \<Rightarrow> 10 | Some l \<Rightarrow> l)
     \<and> pg_page pg = (case page_q of None \<Rightarrow> 1 | Some p \<Rightarrow> p)
     \<and> pg_total pg =
         min (nat (pg_limit pg))
           (length (filter (\<lambda>row. o_user_id row = userId
                       \<and> (case status of None \<Rightarrow> True | Some s \<Rightarrow> s = [] \<or> o_status row = s))
                     (orders db))
            - nat ((pg_page pg - 1) * pg_limit pg))"
proof
  assume run: "list_orders userId page_q limit_q status db = Response 200 (Order_list orders_out pg)"
  define page where "page = (case page_q of None \<Rightarrow> 1 | Some p \<Rightarrow> p)"
  define limit where "limit = (case limit_q of None \<Rightarrow> 10 | Some l \<Rightarrow> l)"
  define matching where "matching =
     (case status of
        None \<Rightarrow> filter (\<lambda>row. o_user_id row = userId) (orders db)
      | Some s \<Rightarrow>
          if s \<noteq> []
          then filter (\<lambda>row. o_user_id row = userId \<and> o_status row = s) (orders db)
          else filter (\<lambda>row. o_user_id row = userId) (orders db))"
  define rows where "rows =
     take (nat limit) (drop (nat ((page - 1) * limit)) (sort_key (\<lambda>row. - o_created_at row) matching))"
  have m: "matching = filter (\<lambda>row. o_user_id row = userId
                       \<and> (case status of None \<Rightarrow> True | Some s \<Rightarrow> s = [] \<or> o_status row = s))
                     (orders db)"
    unfolding matching_def by (cases status) auto
  have eq: "list_orders userId page_q limit_q status db =
      (if limit < 0 \<or> (page - 1) * limit < 0 then Response 500 (Error ''Internal server error'')
       else Response 200
          (Order_list
             (map (\<lambda>order. \<lparr>view_order = order,
                    view_items = filter (\<lambda>i. i_order_id i = o_id order) (order_items db)\<rparr>) rows)
             \<lparr>pg_page = page, pg_limit = limit, pg_total = length rows\<rparr>))"
    unfolding list_orders_def Let_def page_def limit_def matching_def rows_def by simp
  have ok: "\<not> (limit < 0 \<or> (page - 1) * limit < 0)"
    using run eq by (auto split: if_splits)
  then have out: "orders_out = map (\<lambda>order. \<lparr>view_order = order,
                    view_items = filter (\<lambda>i. i_order_id i = o_id order) (order_items db)\<rparr>) rows"
    and pg: "pg = \<lparr>pg_page = page, pg_limit = limit, pg_total = length rows\<rparr>"
    using run eq by simp_all
  have len: "length rows = min (nat limit) (length matching - nat ((page - 1) * limit))"
    unfolding rows_def by (simp add: min.commute)
  show "pg_total pg = length orders_out
     \<and> int (pg_total pg) \<le> pg_limit pg
     \<and> pg_limit pg = (case limit_q of None \<Rightarrow> 10 | Some l \<Rightarrow> l)
     \<and> pg_page pg = (case page_q of None \<Rightarrow> 1 | Some p \<Rightarrow> p)
     \<and> pg_total pg =
         min (nat (pg_limit pg))
           (length (filter (\<lambda>row. o_user_id row = userId
                       \<and> (case status of None \<Rightarrow> True | Some s \<Rightarrow> s = [] \<or> o_status row = s))
                     (orders db))
            - nat ((pg_page pg - 1) * pg_limit pg))"
  proof (intro conjI)
    show "pg_total pg = length orders_out"
      by (simp add: pg out)
    have "0 \<le> limit"
      using ok by simp
    then have "int (nat limit) = limit"
      by simp
    moreover have "min (nat limit) (length matching - nat ((page - 1) * limit)) \<le> nat limit"
      by (rule min.cobounded1)
    ultimately have "int (min (nat limit) (length matching - nat ((page - 1) * limit))) \<le> limit"
      by linarith
    then show "int (pg_total pg) \<le> pg_limit pg"
      by (simp add: pg len)
    show "pg_limit pg = (case limit_q of None \<Rightarrow> 10 | Some l \<Rightarrow> l)"
      by (simp add: pg limit_def)
    show "pg_page pg = (case page_q of None \<Rightarrow> 1 | Some p \<Rightarrow> p)"
      by (simp add: pg page_def)
    show "pg_total pg =
         min (nat (pg_limit pg))
           (length (filter (\<lambda>row. o_user_id row = userId
                       \<and> (case status of None \<Rightarrow> True | Some s \<Rightarrow> s = [] \<or> o_status row = s))
                     (orders db))
            - nat ((pg_page pg - 1) * pg_limit pg))"
      unfolding m [symmetric] by (simp add: pg len)
  qed
qed

theorem list_orders_total_witness:
  "list_orders 3 (Some 1) (Some 2) None sample_store =
     Response 200 (Order_list
       [\<lparr>view_order = \<lparr>o_id = 4, o_user_id = 3, o_status = ''shipped'', o_total_amount = Decimal 150,
            o_shipping_address = ''{}'', o_created_at = 50, o_updated_at = 60\<rparr>,
          view_items = []\<rparr>,
        \<lparr>view_order = \<lparr>o_id = 3, o_user_id = 3, o_status = ''confirmed'', o_total_amount = Decimal 50,
            o_shipping_address = ''{}'', o_created_at = 40, o_updated_at = 40\<rparr>,
          view_items = []\<rparr>]
       \<lparr>pg_page = 1, pg_limit = 2, pg_total = 2\<rparr>)
   \<and> length (filter (\<lambda>row. o_user_id row = 3) (orders sample_store)) = 3
   \<and> pg_total \<lparr>pg_page = 1, pg_limit = 2, pg_total = 2\<rparr> = min (nat 2) (3 - nat ((1 - 1) * 2))"
proof -
  have run: "list_orders 3 (Some 1) (Some 2) None sample_store =
     Response 200 (Order_list
       [\<lparr>view_order = \<lparr>o_id = 4, o_user_id = 3, o_status = ''shipped'', o_total_amount = Decimal 150,
            o_shipping_address = ''{}'', o_created_at = 50, o_updated_at = 60\<rparr>,
          view_items = []\<rparr>,
        \<lparr>view_order = \<lparr>o_id = 3, o_user_id = 3, o_status = ''confirmed'', o_total_amount = Decimal 50,
            o_shipping_address = ''{}'', o_created_at = 40, o_updated_at = 40\<rparr>,
          view_items = []\<rparr>]
       \<lparr>pg_page = 1, pg_limit = 2, pg_total = 2\<rparr>)"
    by (simp add: list_orders_def sample_store_def)
  have n: "length (filter (\<lambda>row. o_user_id row = 3) (orders sample_store)) = 3"
    by (simp add: sample_store_def)
  from list_orders_total [THEN mp, OF run]
  have "pg_total \<lparr>pg_page = 1, pg_limit = 2, pg_total = 2\<rparr> =
         min (nat (pg_limit \<lparr>pg_page = 1, pg_limit = 2, pg_total = 2\<rparr>))
           (length (filter (\<lambda>row. o_user_id row = 3
                       \<and> (case None of None \<Rightarrow> True | Some s \<Rightarrow> s = [] \<or> o_status row = s))
                     (orders sample_store))
            - nat ((pg_page \<lparr>pg_page = 1, pg_limit = 2, pg_total = 2\<rparr> - 1)
                     * pg_limit \<lparr>pg_page = 1, pg_limit = 2, pg_total = 2\<rparr>))"
    by blast
  then show ?thesis
    using run n by simp
qed

end
